theory Spec2Isabelle
  imports Complex_Main "HOL-Library.Char_ord" "HOL-Library.List_Lexorder"
begin

section \<open>The beer festival listing: extraction, classification, filtering, sorting, availability\<close>

text \<open>
  The development follows the class \<open>BeerFestivalApp\<close> in its latest revision (the one
  with the read-then-write availability toggle and the \<open>last_seen\<close> sort column). The
  methods \<open>parseHtmlData\<close>, \<open>parseABV\<close> and \<open>extractCleanBeerStyle\<close> are the same text in
  \<open>script.js\<close>.

  Conventions of the embedding:
  \<^item> a JavaScript string is a \<open>string\<close>; a \<open>char\<close> stands for a UTF-16 code unit below 256
    (the Latin-1 range), which covers every literal of the source;
  \<^item> a JavaScript number is a \<open>number\<close>: a finite value held exactly as a rational, or
    \<open>NaN\<close>. Rounding to a double and the infinities are outside the model;
  \<^item> \<open>null\<close> and \<open>undefined\<close> are \<open>None\<close>;
  \<^item> a \<open>throw\<close> is the left summand of \<open>error + 'a\<close>;
  \<^item> the document is taken after \<open>DOMParser\<close> and \<open>querySelectorAll\<close>: a list of rows, each
    the list of the \<open>textContent\<close> of its \<open>td\<close> cells;
  \<^item> the values of the form controls are an argument (\<open>elements\<close>); rendering is omitted.
\<close>

subsection \<open>Strings and numbers of the host language\<close>

datatype number = Num rat | NaN

datatype error = Error string | TypeError

text \<open>\<open>WhiteSpace\<close> and \<open>LineTerminator\<close> code units below 256: TAB, LF, VT, FF, CR, SP, NBSP.\<close>

definition isWhiteSpace :: "char \<Rightarrow> bool" where
  "isWhiteSpace c = (of_char c \<in> {9, 10, 11, 12, 13, 32, 160 :: nat})"

text \<open>\<open>String.prototype.trim\<close>.\<close>

definition trim :: "string \<Rightarrow> string" where
  "trim s = rev (dropWhile isWhiteSpace (rev (dropWhile isWhiteSpace s)))"

text \<open>
  \<open>String.prototype.toLowerCase\<close> on code units below 256: \<open>A\<close>..\<open>Z\<close>, and the
  accented capitals U+00C0..U+00DE without the multiplication sign U+00D7, move up by 32.
\<close>

definition toLowerCase_char :: "char \<Rightarrow> char" where
  "toLowerCase_char c =
     (let n = (of_char c :: nat)
      in if (65 \<le> n \<and> n \<le> 90) \<or> (192 \<le> n \<and> n \<le> 214) \<or> (216 \<le> n \<and> n \<le> 222)
         then char_of (n + 32) else c)"

definition toLowerCase :: "string \<Rightarrow> string" where
  "toLowerCase s = map toLowerCase_char s"

text \<open>\<open>String.prototype.startsWith\<close> and \<open>String.prototype.includes\<close> (here \<open>includes_str\<close>), by scanning.\<close>

fun startsWith :: "string \<Rightarrow> string \<Rightarrow> bool" where
  "startsWith s [] = True"
| "startsWith [] (k # ks) = False"
| "startsWith (c # cs) (k # ks) = (c = k \<and> startsWith cs ks)"

fun includes_str :: "string \<Rightarrow> string \<Rightarrow> bool" where
  "includes_str [] k = (k = [])"
| "includes_str (c # cs) k = (startsWith (c # cs) k \<or> includes_str cs k)"

text \<open>The regular-expression class \<open>\d\<close>: the ten ASCII digits.\<close>

definition isDigit :: "char \<Rightarrow> bool" where
  "isDigit c = (48 \<le> (of_char c :: nat) \<and> (of_char c :: nat) \<le> 57)"

definition digitValue :: "char \<Rightarrow> nat" where
  "digitValue c = of_char c - 48"

text \<open>The value of a run of decimal digits, most significant first.\<close>

definition decimal :: "string \<Rightarrow> nat" where
  "decimal ds = foldl (\<lambda>n c. 10 * n + digitValue c) 0 ds"

text \<open>
  The exponent part of a decimal literal: \<open>e\<close> or \<open>E\<close>, an optional sign and at least one
  digit; the result is the power of ten to scale by (numerator and denominator). Text
  that is not an exponent part is ignored, as the longest-prefix rule of \<open>parseFloat\<close> says.
\<close>

definition exponentPart :: "string \<Rightarrow> rat" where
  "exponentPart s =
     (case s of
        [] \<Rightarrow> 1
      | e # r \<Rightarrow>
          if e = CHR ''e'' \<or> e = CHR ''E'' then
            (case r of
               [] \<Rightarrow> 1
             | g # r' \<Rightarrow>
                 if g = CHR ''-'' then
                   (if takeWhile isDigit r' = [] then 1
                    else 1 / 10 ^ decimal (takeWhile isDigit r'))
                 else if g = CHR ''+'' then
                   (if takeWhile isDigit r' = [] then 1
                    else 10 ^ decimal (takeWhile isDigit r'))
                 else
                   (if takeWhile isDigit r = [] then 1
                    else 10 ^ decimal (takeWhile isDigit r)))
          else 1)"

text \<open>
  The unsigned part of \<open>parseFloat\<close>: integer digits, an optional point with fraction
  digits, an optional exponent; \<open>NaN\<close> when there is no digit on either side of the point.
\<close>

definition parseUnsigned :: "string \<Rightarrow> number" where
  "parseUnsigned s =
     (let ip = takeWhile isDigit s;
          r = dropWhile isDigit s;
          fp = (case r of [] \<Rightarrow> [] | d # r' \<Rightarrow> if d = CHR ''.'' then takeWhile isDigit r' else []);
          r2 = (case r of [] \<Rightarrow> [] | d # r' \<Rightarrow> if d = CHR ''.'' then dropWhile isDigit r' else r)
      in if ip = [] \<and> fp = [] then NaN
         else Num ((of_nat (decimal ip) + of_nat (decimal fp) / 10 ^ length fp) * exponentPart r2))"

text \<open>
  The global \<open>parseFloat\<close> on a string: leading white space is skipped, a sign is read,
  then the longest prefix that is a decimal literal. (The literal \<open>Infinity\<close> has no
  value in \<open>number\<close> and is not recognised.)
\<close>

definition parseFloat :: "string \<Rightarrow> number" where
  "parseFloat s =
     (case dropWhile isWhiteSpace s of
        [] \<Rightarrow> NaN
      | c # cs \<Rightarrow>
          if c = CHR ''-'' then
            (case parseUnsigned cs of NaN \<Rightarrow> NaN | Num v \<Rightarrow> Num (- v))
          else if c = CHR ''+'' then parseUnsigned cs
          else parseUnsigned (c # cs))"

text \<open>The relational operators on numbers: every comparison with \<open>NaN\<close> is false.\<close>

fun num_lt :: "number \<Rightarrow> number \<Rightarrow> bool" where
  "num_lt (Num a) (Num b) = (a < b)"
| "num_lt _ _ = False"

fun num_le :: "number \<Rightarrow> number \<Rightarrow> bool" where
  "num_le (Num a) (Num b) = (a \<le> b)"
| "num_le _ _ = False"

definition num_gt :: "number \<Rightarrow> number \<Rightarrow> bool" where
  "num_gt a b = num_lt b a"

definition num_ge :: "number \<Rightarrow> number \<Rightarrow> bool" where
  "num_ge a b = num_le b a"

subsection \<open>Records of the application\<close>

text \<open>The object built in \<open>parseHtmlData\<close> (\<open>beerEntry\<close>).\<close>

record beerEntry =
  brewery :: string
  beer :: string
  style :: string
  abv :: number
  location :: string
  bar :: string

subsection \<open>\<open>parseABV\<close>\<close>

text \<open>
  \<open>abvText.match(/(\d+\.?\d*)/)\<close>, returning the capture group: the match starts at the
  first digit of the text, takes every digit that follows, then a point if one is next,
  then every digit after the point. \<open>None\<close> is the \<open>null\<close> of a failed match.
\<close>

definition matchABV :: "string \<Rightarrow> string option" where
  "matchABV abvText =
     (let s = dropWhile (\<lambda>c. \<not> isDigit c) abvText
      in if s = [] then None
         else
           (case dropWhile isDigit s of
              [] \<Rightarrow> Some (takeWhile isDigit s)
            | d # r \<Rightarrow>
                if d = CHR ''.'' then Some (takeWhile isDigit s @ [d] @ takeWhile isDigit r)
                else Some (takeWhile isDigit s)))"

definition parseABV :: "string \<Rightarrow> number" where
  "parseABV abvText = (case matchABV abvText of Some m \<Rightarrow> parseFloat m | None \<Rightarrow> Num 0)"

subsection \<open>\<open>parseHtmlData\<close>\<close>

text \<open>
  The loop over the rows, with \<open>beerData\<close> the array being filled by \<open>push\<close>. A row is
  read only when it has six cells or more, so the indexed reads are in range.
\<close>

fun parseRows :: "string list list \<Rightarrow> beerEntry list \<Rightarrow> beerEntry list" where
  "parseRows [] beerData = beerData"
| "parseRows (cells # rows) beerData =
     (if length cells \<ge> 6 then
        (let brewery' = trim (cells ! 0);
             beer' = trim (cells ! 1);
             style' = trim (cells ! 2);
             abvText = trim (cells ! 3);
             location' = trim (cells ! 4);
             bar' = trim (cells ! 5)
         in if brewery' \<noteq> [] \<and> beer' \<noteq> [] \<and> brewery' \<noteq> ''Brewery'' then
              parseRows rows
                (beerData @ [\<lparr>brewery = brewery', beer = beer', style = style',
                              abv = parseABV abvText, location = location', bar = bar'\<rparr>])
            else parseRows rows beerData)
      else parseRows rows beerData)"

subsection \<open>\<open>extractCleanBeerStyle\<close>\<close>

record coreType =
  keywords_of :: "string list"
  category :: string

definition coreTypes :: "coreType list" where
  "coreTypes =
     [\<lparr>keywords_of = [''ipa'', ''india pale ale''], category = ''IPA''\<rparr>,
      \<lparr>keywords_of = [''bitter''], category = ''Bitter''\<rparr>,
      \<lparr>keywords_of = [''golden ale'', ''golden''], category = ''Golden Ale''\<rparr>,
      \<lparr>keywords_of = [''pale ale''], category = ''Pale Ale''\<rparr>,
      \<lparr>keywords_of = [''amber ale''], category = ''Amber Ale''\<rparr>,
      \<lparr>keywords_of = [''brown ale''], category = ''Brown Ale''\<rparr>,
      \<lparr>keywords_of = [''mild''], category = ''Mild''\<rparr>,
      \<lparr>keywords_of = [''old ale''], category = ''Old Ale''\<rparr>,
      \<lparr>keywords_of = [''strong ale''], category = ''Strong Ale''\<rparr>,
      \<lparr>keywords_of = [''barley wine''], category = ''Barley Wine''\<rparr>,
      \<lparr>keywords_of = [''stout''], category = ''Stout''\<rparr>,
      \<lparr>keywords_of = [''porter''], category = ''Porter''\<rparr>,
      \<lparr>keywords_of = [''wheat'', ''weizen'', ''witbier''], category = ''Wheat Beer''\<rparr>,
      \<lparr>keywords_of = [''pilsner'', ''pils''], category = ''Pilsner''\<rparr>,
      \<lparr>keywords_of = [''lager''], category = ''Lager''\<rparr>,
      \<lparr>keywords_of = [''saison''], category = ''Saison''\<rparr>,
      \<lparr>keywords_of = [''sour'', ''gose'', ''lambic''], category = ''Sour''\<rparr>,
      \<lparr>keywords_of = [''cider''], category = ''Cider''\<rparr>,
      \<lparr>keywords_of = [''perry''], category = ''Perry''\<rparr>,
      \<lparr>keywords_of = [''ale''], category = ''Ale''\<rparr>]"

text \<open>The inner loop, over the keywords of one type: is one of them in the text?\<close>

fun anyKeyword :: "string \<Rightarrow> string list \<Rightarrow> bool" where
  "anyKeyword lowerStyle [] = False"
| "anyKeyword lowerStyle (keyword # ks) =
     (if includes_str lowerStyle keyword then True else anyKeyword lowerStyle ks)"

text \<open>The outer loop, over the types in order; \<open>None\<close> is the \<open>return null\<close> after it.\<close>

fun firstType :: "string \<Rightarrow> coreType list \<Rightarrow> string option" where
  "firstType lowerStyle [] = None"
| "firstType lowerStyle (t # ts) =
     (if anyKeyword lowerStyle (keywords_of t) then Some (category t)
      else firstType lowerStyle ts)"

definition extractCleanBeerStyle :: "string \<Rightarrow> string option" where
  "extractCleanBeerStyle styleText = firstType (toLowerCase styleText) coreTypes"

subsection \<open>The state of the application and of the availability table\<close>

text \<open>
  The columns a header cell can name in its \<open>data-sort\<close> attribute: the six fields of a
  record and \<open>last_seen\<close>. \<open>sortTable\<close> is only called from the click handlers of these
  cells.
\<close>

datatype sortColumn =
  col_brewery | col_beer | col_style | col_abv | col_location | col_bar | col_last_seen

datatype sortDirection = Asc | Desc

record sortState =
  column :: "sortColumn option"
  direction :: sortDirection

text \<open>
  An entry of the cache \<open>beerAvailability\<close>. \<open>updated_at\<close> is held as the milliseconds that
  \<open>new Date(updated_at).getTime()\<close> gives for the stored text; \<open>None\<close> is a missing value.
\<close>

record availability =
  is_available :: bool
  updated_by :: string
  updated_at :: "int option"

text \<open>A row of the remote table \<open>beer_availability\<close>.\<close>

record availabilityRow = availability +
  row_brewery :: string
  beer_name :: string

text \<open>
  \<open>supabase\<close> is \<open>None\<close> when the client could not be created; otherwise it holds the
  present rows of the remote table, in the order a select returns them.
\<close>

record app =
  beers :: "beerEntry list"
  filteredBeers :: "beerEntry list"
  currentSort :: sortState
  beerAvailability :: "string \<rightharpoonup> availability"
  supabase :: "availabilityRow list option"

text \<open>The state the constructor leaves.\<close>

definition initialApp :: "availabilityRow list option \<Rightarrow> app" where
  "initialApp client =
     \<lparr>beers = [], filteredBeers = [],
      currentSort = \<lparr>column = None, direction = Asc\<rparr>,
      beerAvailability = Map.empty, supabase = client\<rparr>"

text \<open>
  \<open>parseHtmlData\<close>: the loop, the \<open>throw\<close> on an empty result, then the two assignments.
\<close>

definition parseHtmlData :: "string list list \<Rightarrow> app \<Rightarrow> error + app" where
  "parseHtmlData rows a =
     (let beerData = parseRows rows []
      in if length beerData = 0 then Inl (Error ''No beer data found in the response'')
         else Inr (a\<lparr>beers := beerData, filteredBeers := beerData\<rparr>))"

subsection \<open>The availability overlay\<close>

text \<open>The template literal \<open>`${brewery}|${beer}`\<close>.\<close>

definition availabilityKey :: "string \<Rightarrow> string \<Rightarrow> string" where
  "availabilityKey b n = b @ ''|'' @ n"

text \<open>The outcome of the three requests of one user action, as the network decides it.\<close>

record network =
  fetchError :: bool
  writeError :: bool
  loadError :: bool

text \<open>The body of the \<open>forEach\<close> in \<open>loadBeerAvailability\<close>, and the whole method.\<close>

definition setAvailability ::
  "(string \<rightharpoonup> availability) \<Rightarrow> availabilityRow \<Rightarrow> (string \<rightharpoonup> availability)" where
  "setAvailability m item =
     m(availabilityKey (row_brewery item) (beer_name item) \<mapsto>
        \<lparr>is_available = is_available item, updated_by = updated_by item,
         updated_at = updated_at item\<rparr>)"

definition loadBeerAvailability :: "network \<Rightarrow> app \<Rightarrow> app" where
  "loadBeerAvailability net a =
     (case supabase a of
        None \<Rightarrow> a
      | Some data \<Rightarrow>
          if loadError net then a
          else a\<lparr>beerAvailability := foldl setAvailability Map.empty data\<rparr>)"

definition getBeerAvailability :: "app \<Rightarrow> beerEntry \<Rightarrow> bool" where
  "getBeerAvailability a b =
     (case beerAvailability a (availabilityKey (brewery b) (beer b)) of
        Some data \<Rightarrow> is_available data
      | None \<Rightarrow> False)"

definition getBeerAvailabilityInfo :: "app \<Rightarrow> beerEntry \<Rightarrow> availability option" where
  "getBeerAvailabilityInfo a b = beerAvailability a (availabilityKey (brewery b) (beer b))"

text \<open>
  The requests on the table. \<open>.eq(brewery).eq(beer_name).single()\<close> gives the row when
  exactly one matches, and an error (\<open>None\<close>) otherwise. An update rewrites the matching
  rows. The table is keyed by brewery and beer name (the earlier revision upserts with
  \<open>onConflict: 'brewery,beer_name'\<close>), so an insert of a present key is refused (\<open>None\<close>).
\<close>

definition matchesKey :: "string \<Rightarrow> string \<Rightarrow> availabilityRow \<Rightarrow> bool" where
  "matchesKey b n r = (row_brewery r = b \<and> beer_name r = n)"

definition selectSingle :: "availabilityRow list \<Rightarrow> string \<Rightarrow> string \<Rightarrow> availabilityRow option" where
  "selectSingle data b n = (case filter (matchesKey b n) data of [r] \<Rightarrow> Some r | _ \<Rightarrow> None)"

definition updateRows ::
  "availabilityRow list \<Rightarrow> string \<Rightarrow> string \<Rightarrow> bool \<Rightarrow> string \<Rightarrow> int \<Rightarrow> availabilityRow list" where
  "updateRows data b n newStatus userId now =
     map (\<lambda>r. if matchesKey b n r
               then r\<lparr>is_available := newStatus, updated_by := userId, updated_at := Some now\<rparr>
               else r) data"

definition insertRow ::
  "availabilityRow list \<Rightarrow> string \<Rightarrow> string \<Rightarrow> bool \<Rightarrow> string \<Rightarrow> int
     \<Rightarrow> availabilityRow list option" where
  "insertRow data b n newStatus userId now =
     (if filter (matchesKey b n) data \<noteq> [] then None
      else Some (data @ [\<lparr>is_available = newStatus, updated_by = userId, updated_at = Some now,
                           row_brewery = b, beer_name = n\<rparr>]))"

text \<open>
  \<open>toggleBeerAvailability\<close>, latest revision: a point read of the table, the flip, an
  update or an insert, then a reload of the cache. \<open>userId\<close> is what \<open>getUserId()\<close> gives
  and \<open>now\<close> the clock reading of \<open>new Date()\<close>. Every path that alerts or logs and
  returns leaves the state as it was.
\<close>

definition toggleBeerAvailability :: "network \<Rightarrow> string \<Rightarrow> int \<Rightarrow> beerEntry \<Rightarrow> app \<Rightarrow> app" where
  "toggleBeerAvailability net userId now b a =
     (case supabase a of
        None \<Rightarrow> a
      | Some data \<Rightarrow>
          (let currentData = (if fetchError net then None
                              else selectSingle data (brewery b) (beer b));
               currentStatus = (case currentData of Some r \<Rightarrow> is_available r | None \<Rightarrow> False);
               recordExists = (currentData \<noteq> None);
               newStatus = (\<not> currentStatus);
               written =
                 (if writeError net then None
                  else if recordExists
                    then Some (updateRows data (brewery b) (beer b) newStatus userId now)
                    else insertRow data (brewery b) (beer b) newStatus userId now)
           in case written of
                None \<Rightarrow> a
              | Some data' \<Rightarrow> loadBeerAvailability net (a\<lparr>supabase := Some data'\<rparr>)))"

text \<open>
  The earlier revision of the toggle, which the latest one supersedes: the current status
  is taken from the cache as \<open>this.beerAvailability.get(key) || false\<close>, that is the cached
  object itself, so the new status is true exactly when the cache has no entry; the write
  is one upsert and the cache is then set locally.
\<close>

definition upsertRow ::
  "availabilityRow list \<Rightarrow> string \<Rightarrow> string \<Rightarrow> bool \<Rightarrow> string \<Rightarrow> int \<Rightarrow> availabilityRow list" where
  "upsertRow data b n newStatus userId now =
     (case insertRow data b n newStatus userId now of
        Some data' \<Rightarrow> data'
      | None \<Rightarrow> updateRows data b n newStatus userId now)"

definition toggleBeerAvailability_upsert ::
  "network \<Rightarrow> string \<Rightarrow> int \<Rightarrow> beerEntry \<Rightarrow> app \<Rightarrow> app" where
  "toggleBeerAvailability_upsert net userId now b a =
     (case supabase a of
        None \<Rightarrow> a
      | Some data \<Rightarrow>
          (let key = availabilityKey (brewery b) (beer b);
               newStatus = (beerAvailability a key = None)
           in if writeError net then a
              else a\<lparr>supabase := Some (upsertRow data (brewery b) (beer b) newStatus userId now),
                     beerAvailability := (beerAvailability a)(key \<mapsto>
                        \<lparr>is_available = newStatus, updated_by = userId,
                         updated_at = Some now\<rparr>)\<rparr>))"

subsection \<open>\<open>filterBeers\<close>\<close>

text \<open>
  The values of the form controls read at the start of \<open>filterBeers\<close>. The two sliders
  hold text, which \<open>parseFloat\<close> turns into the bounds.
\<close>

record elements =
  searchInput :: string
  barFilter :: string
  styleFilter :: string
  availabilityFilter :: string
  abvMin :: string
  abvMax :: string

definition matchesSearch :: "string \<Rightarrow> beerEntry \<Rightarrow> bool" where
  "matchesSearch searchTerm b =
     (searchTerm = [] \<or>
      includes_str (toLowerCase (brewery b)) searchTerm \<or>
      includes_str (toLowerCase (beer b)) searchTerm \<or>
      includes_str (toLowerCase (style b)) searchTerm \<or>
      includes_str (toLowerCase (location b)) searchTerm)"

definition matchesBar :: "string \<Rightarrow> beerEntry \<Rightarrow> bool" where
  "matchesBar selectedBar b = (selectedBar = [] \<or> bar b = selectedBar)"

text \<open>
  The style clause. With a style selected, \<open>toLowerCase\<close> is called on the result of
  \<open>extractCleanBeerStyle\<close>; when that result is \<open>null\<close> the call throws a \<open>TypeError\<close>.
\<close>

definition matchesStyle :: "string \<Rightarrow> beerEntry \<Rightarrow> error + bool" where
  "matchesStyle selectedStyle b =
     (if selectedStyle = [] then Inr True
      else
        (case extractCleanBeerStyle (style b) of
           None \<Rightarrow> Inl TypeError
         | Some c \<Rightarrow>
             Inr (includes_str (toLowerCase c) (toLowerCase selectedStyle) \<or>
                  includes_str (toLowerCase (style b)) (toLowerCase selectedStyle))))"

definition matchesAvailability :: "string \<Rightarrow> bool \<Rightarrow> bool" where
  "matchesAvailability selectedAvailability isAvailable =
     (selectedAvailability = [] \<or>
      (selectedAvailability = ''available'' \<and> isAvailable) \<or>
      (selectedAvailability = ''unavailable'' \<and> \<not> isAvailable))"

definition matchesABV :: "number \<Rightarrow> number \<Rightarrow> beerEntry \<Rightarrow> bool" where
  "matchesABV minABV maxABV b = (num_ge (abv b) minABV \<and> num_le (abv b) maxABV)"

text \<open>
  The callback given to \<open>Array.prototype.filter\<close>: the five clauses are computed one after
  the other, then combined.
\<close>

definition filterCallback :: "elements \<Rightarrow> app \<Rightarrow> beerEntry \<Rightarrow> error + bool" where
  "filterCallback els a b =
     (let searchTerm = toLowerCase (searchInput els);
          minABV = parseFloat (abvMin els);
          maxABV = parseFloat (abvMax els)
      in case matchesStyle (styleFilter els) b of
           Inl e \<Rightarrow> Inl e
         | Inr ms \<Rightarrow>
             Inr (matchesSearch searchTerm b \<and> matchesBar (barFilter els) b \<and> ms \<and>
                  matchesAvailability (availabilityFilter els) (getBeerAvailability a b) \<and>
                  matchesABV minABV maxABV b))"

text \<open>\<open>Array.prototype.filter\<close> with a callback that may throw: the first throw ends the pass.\<close>

fun filter_js :: "('a \<Rightarrow> error + bool) \<Rightarrow> 'a list \<Rightarrow> error + 'a list" where
  "filter_js f [] = Inr []"
| "filter_js f (x # xs) =
     (case f x of
        Inl e \<Rightarrow> Inl e
      | Inr keep \<Rightarrow>
          (case filter_js f xs of
             Inl e \<Rightarrow> Inl e
           | Inr ys \<Rightarrow> Inr (if keep then x # ys else ys)))"

definition filterBeers :: "elements \<Rightarrow> app \<Rightarrow> error + app" where
  "filterBeers els a =
     (case filter_js (filterCallback els a) (beers a) of
        Inl e \<Rightarrow> Inl e
      | Inr fs \<Rightarrow> Inr (a\<lparr>filteredBeers := fs\<rparr>))"

subsection \<open>\<open>sortTable\<close>\<close>

text \<open>
  The three lines \<open>let result = 0; if (aVal < bVal) result = -1; if (aVal > bVal) result = 1\<close>,
  given the outcome of the two comparisons.
\<close>

definition threeWay :: "bool \<Rightarrow> bool \<Rightarrow> int" where
  "threeWay lt gt = (if gt then 1 else if lt then - 1 else 0)"

text \<open>\<open>parseFloat(aVal) || 0\<close> on a number: \<open>NaN\<close> and zero are falsy.\<close>

definition orZero :: "number \<Rightarrow> number" where
  "orZero v = (case v of Num r \<Rightarrow> Num r | NaN \<Rightarrow> Num 0)"

text \<open>The value compared for \<open>last_seen\<close>: the time stamp of a record marked available, else 0.\<close>

definition lastSeen :: "app \<Rightarrow> beerEntry \<Rightarrow> int" where
  "lastSeen a b =
     (case getBeerAvailabilityInfo a b of
        None \<Rightarrow> 0
      | Some info \<Rightarrow>
          (case updated_at info of
             None \<Rightarrow> 0
           | Some t \<Rightarrow> if is_available info then t else 0))"

text \<open>\<open>a[column].toString().toLowerCase()\<close> for the text columns.\<close>

definition lowerField :: "(beerEntry \<Rightarrow> string) \<Rightarrow> beerEntry \<Rightarrow> string" where
  "lowerField field b = toLowerCase (field b)"

definition compareText :: "(beerEntry \<Rightarrow> string) \<Rightarrow> beerEntry \<Rightarrow> beerEntry \<Rightarrow> int" where
  "compareText field x y =
     threeWay (lowerField field x < lowerField field y) (lowerField field x > lowerField field y)"

text \<open>The comparator given to \<open>Array.prototype.sort\<close>.\<close>

definition compareBeers ::
  "app \<Rightarrow> sortColumn \<Rightarrow> sortDirection \<Rightarrow> beerEntry \<Rightarrow> beerEntry \<Rightarrow> int" where
  "compareBeers a col dir x y =
     (let result =
        (case col of
           col_abv \<Rightarrow>
             threeWay (num_lt (orZero (abv x)) (orZero (abv y)))
                      (num_gt (orZero (abv x)) (orZero (abv y)))
         | col_last_seen \<Rightarrow> threeWay (lastSeen a x < lastSeen a y) (lastSeen a x > lastSeen a y)
         | col_brewery \<Rightarrow> compareText brewery x y
         | col_beer \<Rightarrow> compareText beer x y
         | col_style \<Rightarrow> compareText style x y
         | col_location \<Rightarrow> compareText location x y
         | col_bar \<Rightarrow> compareText bar x y)
      in if dir = Desc then - result else result)"

text \<open>
  \<open>Array.prototype.sort\<close> with a comparator, as a stable insertion sort: an element goes in
  front of the first element it does not compare greater than.
\<close>

fun insert_js :: "('a \<Rightarrow> 'a \<Rightarrow> int) \<Rightarrow> 'a \<Rightarrow> 'a list \<Rightarrow> 'a list" where
  "insert_js cmp x [] = [x]"
| "insert_js cmp x (y # ys) = (if cmp x y \<le> 0 then x # y # ys else y # insert_js cmp x ys)"

definition sort_js :: "('a \<Rightarrow> 'a \<Rightarrow> int) \<Rightarrow> 'a list \<Rightarrow> 'a list" where
  "sort_js cmp xs = foldr (insert_js cmp) xs []"

definition toggleSort :: "sortState \<Rightarrow> sortColumn \<Rightarrow> sortState" where
  "toggleSort cs col =
     (if column cs = Some col
      then cs\<lparr>direction := (if direction cs = Asc then Desc else Asc)\<rparr>
      else cs\<lparr>column := Some col, direction := Asc\<rparr>)"

definition sortTable :: "sortColumn \<Rightarrow> app \<Rightarrow> app" where
  "sortTable col a =
     (let cs = toggleSort (currentSort a) col
      in a\<lparr>currentSort := cs,
           filteredBeers := sort_js (compareBeers a col (direction cs)) (filteredBeers a)\<rparr>)"

text \<open>The value a record is ordered by under a column, for stating that there are no ties.\<close>

datatype sortKey = TextKey string | NumberKey number | TimeKey int

definition sortKeyOf :: "app \<Rightarrow> sortColumn \<Rightarrow> beerEntry \<Rightarrow> sortKey" where
  "sortKeyOf a col b =
     (case col of
        col_abv \<Rightarrow> NumberKey (orZero (abv b))
      | col_last_seen \<Rightarrow> TimeKey (lastSeen a b)
      | col_brewery \<Rightarrow> TextKey (lowerField brewery b)
      | col_beer \<Rightarrow> TextKey (lowerField beer b)
      | col_style \<Rightarrow> TextKey (lowerField style b)
      | col_location \<Rightarrow> TextKey (lowerField location b)
      | col_bar \<Rightarrow> TextKey (lowerField bar b))"

subsection \<open>The vocabulary of the specification\<close>

text \<open>
  A qualifying row: six cells or more, brewery and name not empty once trimmed, and the
  trimmed brewery not the header label.
\<close>

definition qualifies :: "string list \<Rightarrow> bool" where
  "qualifies cells =
     (6 \<le> length cells \<and> trim (cells ! 0) \<noteq> [] \<and> trim (cells ! 1) \<noteq> [] \<and>
      trim (cells ! 0) \<noteq> ''Brewery'')"

text \<open>
  The record of a row: positions 0 to 5, each trimmed; the ABV text of position 3 is
  kept as the number \<open>parseABV\<close> reads in it.
\<close>

definition recordOf :: "string list \<Rightarrow> beerEntry" where
  "recordOf cells =
     \<lparr>brewery = trim (cells ! 0), beer = trim (cells ! 1), style = trim (cells ! 2),
      abv = parseABV (trim (cells ! 3)), location = trim (cells ! 4),
      bar = trim (cells ! 5)\<rparr>"

text \<open>The value of the decimal token \<open>ds.fs\<close>.\<close>

definition tokenValue :: "string \<Rightarrow> string \<Rightarrow> rat" where
  "tokenValue ds fs = of_nat (decimal ds) + of_nat (decimal fs) / 10 ^ length fs"

text \<open>A keyword occurs in a text.\<close>

definition occursIn :: "string \<Rightarrow> string \<Rightarrow> bool" where
  "occursIn k s = (\<exists>p q. s = p @ k @ q)"

text \<open>A rule matches a text when one of its keywords occurs in it.\<close>

definition ruleMatches :: "string \<Rightarrow> coreType \<Rightarrow> bool" where
  "ruleMatches s t = (\<exists>k \<in> set (keywords_of t). occursIn k s)"

text \<open>The rational a number stands for (0 for \<open>NaN\<close>), to order sort values by.\<close>

definition ratOf :: "number \<Rightarrow> rat" where
  "ratOf v = (case v of Num r \<Rightarrow> r | NaN \<Rightarrow> 0)"

text \<open>The row of the table for a record, and what the table says of the record.\<close>

definition storedRow :: "app \<Rightarrow> beerEntry \<Rightarrow> availabilityRow option" where
  "storedRow a b =
     (case supabase a of
        None \<Rightarrow> None
      | Some data \<Rightarrow> selectSingle data (brewery b) (beer b))"

definition storedStatus :: "app \<Rightarrow> beerEntry \<Rightarrow> bool" where
  "storedStatus a b = (case storedRow a b of Some r \<Rightarrow> is_available r | None \<Rightarrow> False)"

definition storedUpdatedAt :: "app \<Rightarrow> beerEntry \<Rightarrow> int option" where
  "storedUpdatedAt a b = (case storedRow a b of Some r \<Rightarrow> updated_at r | None \<Rightarrow> None)"

text \<open>The table holds one row at most for each pair of brewery and beer name.\<close>

definition keyed :: "availabilityRow list \<Rightarrow> bool" where
  "keyed data = distinct (map (\<lambda>r. (row_brewery r, beer_name r)) data)"

text \<open>All three requests of an action succeed.\<close>

definition succeeds :: "network \<Rightarrow> bool" where
  "succeeds net = (\<not> fetchError net \<and> \<not> writeError net \<and> \<not> loadError net)"

section \<open>Properties\<close>

subsection \<open>Extraction\<close>

text \<open>The loop appends to its accumulator the records of the qualifying rows, in order.\<close>

lemma parseRows_acc: "parseRows rows acc = acc @ map recordOf (filter qualifies rows)"
  by (induction rows arbitrary: acc) (simp_all add: qualifies_def recordOf_def Let_def)

text \<open>
  Claim C1. For a document with at least one qualifying row, extraction succeeds and the
  records it stores are exactly those of the qualifying rows (six cells or more, trimmed
  brewery and name not empty, trimmed brewery not \<open>Brewery\<close>), each built from the
  trimmed cells 0 to 5 (the ABV text of cell 3 through \<open>parseABV\<close>), in the order of the
  rows. The list shown is a copy of the same list.
\<close>

theorem extraction_exact:
  assumes "\<exists>cells \<in> set rows. qualifies cells"
  shows "\<exists>a'. parseHtmlData rows a = Inr a' \<and>
           beers a' = map recordOf (filter qualifies rows) \<and>
           filteredBeers a' = beers a'"
proof -
  from assms have "filter qualifies rows \<noteq> []"
    by (simp add: filter_empty_conv)
  then show ?thesis
    by (simp add: parseHtmlData_def parseRows_acc Let_def)
qed

theorem extraction_exact_witness:
  "(\<exists>cells \<in> set [[''  Brewer A '', ''Golden'', ''Golden Ale, 4.2%'', ''4.2%'', ''Tent 1'', ''Bar X''],
        [''Brewery'', ''Beer'', ''Style'', ''ABV'', ''Location'', ''Bar''], [''x'']]. qualifies cells) \<and>
   (\<exists>a'. parseHtmlData
            [[''  Brewer A '', ''Golden'', ''Golden Ale, 4.2%'', ''4.2%'', ''Tent 1'', ''Bar X''],
             [''Brewery'', ''Beer'', ''Style'', ''ABV'', ''Location'', ''Bar''], [''x'']]
            (initialApp None) = Inr a' \<and>
      beers a' = [\<lparr>brewery = ''Brewer A'', beer = ''Golden'', style = ''Golden Ale, 4.2%'',
                   abv = Num (21 / 5), location = ''Tent 1'', bar = ''Bar X''\<rparr>])"
proof -
  let ?R = "[[''  Brewer A '', ''Golden'', ''Golden Ale, 4.2%'', ''4.2%'', ''Tent 1'', ''Bar X''],
        [''Brewery'', ''Beer'', ''Style'', ''ABV'', ''Location'', ''Bar''], [''x'']]"
  have h: "\<exists>cells \<in> set ?R. qualifies cells"
    by code_simp
  have e: "map recordOf (filter qualifies ?R) =
      [\<lparr>brewery = ''Brewer A'', beer = ''Golden'', style = ''Golden Ale, 4.2%'',
                   abv = Num (21 / 5), location = ''Tent 1'', bar = ''Bar X''\<rparr>]"
    by code_simp
  from extraction_exact [OF h, of "initialApp None"] e h show ?thesis
    by auto
qed

text \<open>
  Claim C3. Extraction throws its error exactly when the document has no qualifying row:
  with none, the result is the error and no state is produced; with one or more, the
  result is a state.
\<close>

theorem extraction_fails_iff:
  "((\<forall>cells \<in> set rows. \<not> qualifies cells) \<longrightarrow>
      parseHtmlData rows a = Inl (Error ''No beer data found in the response'')) \<and>
   ((\<exists>cells \<in> set rows. qualifies cells) \<longrightarrow> (\<exists>a'. parseHtmlData rows a = Inr a'))"
proof -
  have "(\<forall>cells \<in> set rows. \<not> qualifies cells) \<longleftrightarrow> filter qualifies rows = []"
    by (simp add: filter_empty_conv)
  then show ?thesis
    by (auto simp add: parseHtmlData_def parseRows_acc Let_def)
qed

theorem extraction_fails_iff_witness:
  "\<not> (\<exists>cells \<in> set [[''Brewery'', ''Beer'', ''Style'', ''ABV'', ''Location'', ''Bar''],
                       [''Brewer A'', ''Golden'', ''Golden Ale'']]. qualifies cells) \<and>
   parseHtmlData [[''Brewery'', ''Beer'', ''Style'', ''ABV'', ''Location'', ''Bar''],
                  [''Brewer A'', ''Golden'', ''Golden Ale'']] (initialApp None) =
     Inl (Error ''No beer data found in the response'') \<and>
   (\<exists>cells \<in> set [[''Brewer A'', ''Golden'', ''Golden Ale'', ''4.2%'', ''Tent 1'', ''Bar X'']].
      qualifies cells) \<and>
   (\<exists>a'. parseHtmlData [[''Brewer A'', ''Golden'', ''Golden Ale'', ''4.2%'', ''Tent 1'', ''Bar X'']]
            (initialApp None) = Inr a')"
proof -
  have n: "\<forall>cells \<in> set [[''Brewery'', ''Beer'', ''Style'', ''ABV'', ''Location'', ''Bar''],
                    [''Brewer A'', ''Golden'', ''Golden Ale'']]. \<not> qualifies cells"
    by code_simp
  have y: "\<exists>cells \<in> set [[''Brewer A'', ''Golden'', ''Golden Ale'', ''4.2%'', ''Tent 1'', ''Bar X'']].
      qualifies cells"
    by code_simp
  from n y
    extraction_fails_iff [of "[[''Brewery'', ''Beer'', ''Style'', ''ABV'', ''Location'', ''Bar''],
                    [''Brewer A'', ''Golden'', ''Golden Ale'']]" "initialApp None"]
    extraction_fails_iff [of "[[''Brewer A'', ''Golden'', ''Golden Ale'', ''4.2%'', ''Tent 1'', ''Bar X'']]"
      "initialApp None"]
  show ?thesis
    by blast
qed

subsection \<open>The ABV text\<close>

lemma isDigit_not_space: "isDigit c \<Longrightarrow> \<not> isWhiteSpace c"
  by (auto simp add: isDigit_def isWhiteSpace_def)

lemma isDigit_not_sign: "isDigit c \<Longrightarrow> c \<noteq> CHR ''-'' \<and> c \<noteq> CHR ''+'' \<and> c \<noteq> CHR ''.''"
  by (auto simp add: isDigit_def)

lemma takeWhile_digits:
  assumes "\<forall>c \<in> set ds. isDigit c" and "rest = [] \<or> \<not> isDigit (hd rest)"
  shows "takeWhile isDigit (ds @ rest) = ds" and "dropWhile isDigit (ds @ rest) = rest"
  using assms by (cases rest; simp add: takeWhile_append2 dropWhile_append2)+

lemma dropWhile_nondigits:
  assumes "\<forall>c \<in> set pre. \<not> isDigit c" and "ds \<noteq> []" and "\<forall>c \<in> set ds. isDigit c"
  shows "dropWhile (\<lambda>c. \<not> isDigit c) (pre @ ds @ rest) = ds @ rest"
  using assms by (cases ds) (simp_all add: dropWhile_append2)

lemma parseFloat_token:
  assumes "ds \<noteq> []" and "\<forall>c \<in> set ds. isDigit c" and "\<forall>c \<in> set fs. isDigit c"
  shows "parseFloat ds = Num (of_nat (decimal ds))"
    and "parseFloat (ds @ [CHR ''.''] @ fs) = Num (tokenValue ds fs)"
proof -
  obtain d ds' where ds: "ds = d # ds'" using assms(1) by (cases ds) auto
  then have d: "isDigit d" using assms(2) by simp
  have t1: "takeWhile isDigit ds = ds" "dropWhile isDigit ds = []"
    using takeWhile_digits [of ds "[]"] assms(2) by simp_all
  have u1: "parseUnsigned ds = Num (of_nat (decimal ds))"
    using assms(1) by (simp add: parseUnsigned_def t1 Let_def exponentPart_def decimal_def)
  show "parseFloat ds = Num (of_nat (decimal ds))"
    using u1 d isDigit_not_space [OF d] isDigit_not_sign [OF d]
    by (simp add: parseFloat_def ds)
  have t2: "takeWhile isDigit (ds @ CHR ''.'' # fs) = ds"
       "dropWhile isDigit (ds @ CHR ''.'' # fs) = CHR ''.'' # fs"
    using takeWhile_digits [of ds "CHR ''.'' # fs"] assms(2) by (simp_all add: isDigit_def)
  have t3: "takeWhile isDigit fs = fs" "dropWhile isDigit fs = []"
    using takeWhile_digits [of fs "[]"] assms(3) by simp_all
  have u2: "parseUnsigned (ds @ [CHR ''.''] @ fs) = Num (tokenValue ds fs)"
    using assms(1) by (simp add: parseUnsigned_def Let_def exponentPart_def tokenValue_def t2 t3)
  show "parseFloat (ds @ [CHR ''.''] @ fs) = Num (tokenValue ds fs)"
    using u2 d isDigit_not_space [OF d] isDigit_not_sign [OF d]
    by (simp add: parseFloat_def ds)
qed

lemma matchABV_none: "\<forall>c \<in> set s. \<not> isDigit c \<Longrightarrow> matchABV s = None"
  by (simp add: matchABV_def dropWhile_eq_Nil_conv)

lemma matchABV_integer:
  assumes "\<forall>c \<in> set pre. \<not> isDigit c" and "ds \<noteq> []" and "\<forall>c \<in> set ds. isDigit c"
    and "rest = [] \<or> (\<not> isDigit (hd rest) \<and> hd rest \<noteq> CHR ''.'')"
  shows "matchABV (pre @ ds @ rest) = Some ds"
proof -
  have r: "rest = [] \<or> \<not> isDigit (hd rest)" using assms(4) by auto
  have a: "dropWhile (\<lambda>c. \<not> isDigit c) (pre @ ds @ rest) = ds @ rest"
    by (rule dropWhile_nondigits [OF assms(1-3)])
  have b: "takeWhile isDigit (ds @ rest) = ds" "dropWhile isDigit (ds @ rest) = rest"
    by (rule takeWhile_digits [OF assms(3) r])+
  have m: "matchABV (pre @ ds @ rest) =
      (if ds @ rest = [] then None
       else (case rest of [] \<Rightarrow> Some ds
             | d # r \<Rightarrow> if d = CHR ''.'' then Some (ds @ [d] @ takeWhile isDigit r) else Some ds))"
    unfolding matchABV_def Let_def a b ..
  show ?thesis
    unfolding m using assms(2,4) by (cases rest) simp_all
qed

lemma matchABV_fraction:
  assumes "\<forall>c \<in> set pre. \<not> isDigit c" and "ds \<noteq> []" and "\<forall>c \<in> set ds. isDigit c"
    and "\<forall>c \<in> set fs. isDigit c" and "rest = [] \<or> \<not> isDigit (hd rest)"
  shows "matchABV (pre @ ds @ [CHR ''.''] @ fs @ rest) = Some (ds @ [CHR ''.''] @ fs)"
proof -
  have p: "\<not> isDigit CHR ''.''" by (simp add: isDigit_def)
  have a: "dropWhile (\<lambda>c. \<not> isDigit c) (pre @ ds @ [CHR ''.''] @ fs @ rest) = ds @ [CHR ''.''] @ fs @ rest"
    using dropWhile_nondigits [OF assms(1-3)] by simp
  have b: "takeWhile isDigit (ds @ [CHR ''.''] @ fs @ rest) = ds"
      "dropWhile isDigit (ds @ [CHR ''.''] @ fs @ rest) = [CHR ''.''] @ fs @ rest"
    using takeWhile_digits [OF assms(3), of "[CHR ''.''] @ fs @ rest"] p by simp_all
  have c: "takeWhile isDigit (fs @ rest) = fs"
    using takeWhile_digits [OF assms(4,5)] by simp
  have m: "matchABV (pre @ ds @ [CHR ''.''] @ fs @ rest) =
      (if ds @ [CHR ''.''] @ fs @ rest = [] then None
       else (case [CHR ''.''] @ fs @ rest of [] \<Rightarrow> Some ds
             | d # r \<Rightarrow> if d = CHR ''.'' then Some (ds @ [d] @ takeWhile isDigit r) else Some ds))"
    unfolding matchABV_def Let_def a b ..
  show ?thesis
    unfolding m using assms(2) by (simp add: c)
qed

text \<open>Every text with a digit splits as the three cases of the claim need.\<close>

lemma digit_split:
  assumes "\<exists>c \<in> set s. isDigit c"
  shows "\<exists>pre ds rest. s = pre @ ds @ rest \<and> (\<forall>c \<in> set pre. \<not> isDigit c) \<and> ds \<noteq> [] \<and>
           (\<forall>c \<in> set ds. isDigit c) \<and> (rest = [] \<or> \<not> isDigit (hd rest))"
proof -
  let ?pre = "takeWhile (\<lambda>c. \<not> isDigit c) s"
  let ?s' = "dropWhile (\<lambda>c. \<not> isDigit c) s"
  let ?ds = "takeWhile isDigit ?s'"
  let ?rest = "dropWhile isDigit ?s'"
  have ne: "?s' \<noteq> []"
    using assms by (simp add: dropWhile_eq_Nil_conv)
  then have "isDigit (hd ?s')"
    using hd_dropWhile [of "\<lambda>c. \<not> isDigit c" s] by simp
  with ne have ds: "?ds \<noteq> []"
    by (cases ?s') simp_all
  have "s = ?pre @ ?ds @ ?rest"
    by simp
  moreover have "\<forall>c \<in> set ?pre. \<not> isDigit c"
    using set_takeWhileD [of _ "\<lambda>c. \<not> isDigit c" s] by blast
  moreover have "\<forall>c \<in> set ?ds. isDigit c"
    using set_takeWhileD [of _ isDigit ?s'] by blast
  moreover have "?rest = [] \<or> \<not> isDigit (hd ?rest)"
    using hd_dropWhile [of isDigit ?s'] by blast
  ultimately show ?thesis
    using ds by blast
qed

lemma tokenValue_nonneg: "0 \<le> tokenValue ds fs"
  by (simp add: tokenValue_def)

text \<open>\<open>parseABV\<close> always gives a number, never \<open>NaN\<close>, and never a negative one.\<close>

lemma parseABV_number: "\<exists>v. parseABV s = Num v \<and> 0 \<le> v"
proof (cases "\<exists>c \<in> set s. isDigit c")
  case False
  then have "parseABV s = Num 0"
    by (simp add: parseABV_def matchABV_none)
  then show ?thesis by simp
next
  case True
  from digit_split [OF True] obtain pre ds rest where
    s: "s = pre @ ds @ rest" and pre: "\<forall>c \<in> set pre. \<not> isDigit c" and ds: "ds \<noteq> []"
    "\<forall>c \<in> set ds. isDigit c" and rest: "rest = [] \<or> \<not> isDigit (hd rest)"
    by blast
  show ?thesis
  proof (cases "rest \<noteq> [] \<and> hd rest = CHR ''.''")
    case False
    with rest have "rest = [] \<or> (\<not> isDigit (hd rest) \<and> hd rest \<noteq> CHR ''.'')"
      by blast
    from matchABV_integer [OF pre ds this] have "parseABV s = Num (of_nat (decimal ds))"
      using parseFloat_token(1) [OF ds, of "[]"] by (simp add: parseABV_def s)
    then show ?thesis by simp
  next
    case True
    then obtain rest' where r: "rest = CHR ''.'' # rest'"
      by (cases rest) auto
    let ?fs = "takeWhile isDigit rest'"
    let ?tl = "dropWhile isDigit rest'"
    have fs: "\<forall>c \<in> set ?fs. isDigit c"
      using set_takeWhileD [of _ isDigit rest'] by blast
    have tl: "?tl = [] \<or> \<not> isDigit (hd ?tl)"
      using hd_dropWhile [of isDigit rest'] by blast
    have "s = pre @ ds @ [CHR ''.''] @ ?fs @ ?tl"
      by (simp add: s r)
    with matchABV_fraction [OF pre ds fs tl]
    have "matchABV s = Some (ds @ [CHR ''.''] @ ?fs)"
      by simp
    then have "parseABV s = Num (tokenValue ds ?fs)"
      using parseFloat_token(2) [OF ds fs] by (simp add: parseABV_def)
    then show ?thesis by (simp add: tokenValue_nonneg)
  qed
qed

text \<open>
  Claim C4. \<open>parseABV\<close> reads the first numeric token of its text and returns its value:
  0 when the text has no digit; the value of the first run of digits when no point
  follows it; the value of the digits, the point and the digits after it otherwise. In
  particular \<open>4.5%\<close> gives 4.5, \<open>N/A\<close> gives 0 and \<open>5\<close> gives 5.
\<close>

theorem parseABV_first_token:
  "((\<forall>c \<in> set s. \<not> isDigit c) \<longrightarrow> parseABV s = Num 0) \<and>
   ((\<forall>c \<in> set pre. \<not> isDigit c) \<and> ds \<noteq> [] \<and> (\<forall>c \<in> set ds. isDigit c) \<and>
      (rest = [] \<or> (\<not> isDigit (hd rest) \<and> hd rest \<noteq> CHR ''.'')) \<longrightarrow>
      parseABV (pre @ ds @ rest) = Num (of_nat (decimal ds))) \<and>
   ((\<forall>c \<in> set pre. \<not> isDigit c) \<and> ds \<noteq> [] \<and> (\<forall>c \<in> set ds. isDigit c) \<and>
      (\<forall>c \<in> set fs. isDigit c) \<and> (rest = [] \<or> \<not> isDigit (hd rest)) \<longrightarrow>
      parseABV (pre @ ds @ ''.'' @ fs @ rest) = Num (tokenValue ds fs)) \<and>
   parseABV ''4.5%'' = Num 4.5 \<and> parseABV ''N/A'' = Num 0 \<and> parseABV ''5'' = Num 5.0"
proof (intro conjI impI)
  assume "\<forall>c \<in> set s. \<not> isDigit c"
  then show "parseABV s = Num 0"
    by (simp add: parseABV_def matchABV_none)
next
  assume a: "(\<forall>c \<in> set pre. \<not> isDigit c) \<and> ds \<noteq> [] \<and> (\<forall>c \<in> set ds. isDigit c) \<and>
      (rest = [] \<or> (\<not> isDigit (hd rest) \<and> hd rest \<noteq> CHR ''.''))"
  then have "matchABV (pre @ ds @ rest) = Some ds"
    using matchABV_integer [of pre ds rest] by blast
  with a show "parseABV (pre @ ds @ rest) = Num (of_nat (decimal ds))"
    using parseFloat_token(1) [of ds "[]"] by (simp add: parseABV_def)
next
  assume a: "(\<forall>c \<in> set pre. \<not> isDigit c) \<and> ds \<noteq> [] \<and> (\<forall>c \<in> set ds. isDigit c) \<and>
      (\<forall>c \<in> set fs. isDigit c) \<and> (rest = [] \<or> \<not> isDigit (hd rest))"
  then have "matchABV (pre @ ds @ [CHR ''.''] @ fs @ rest) = Some (ds @ [CHR ''.''] @ fs)"
    using matchABV_fraction [of pre ds fs rest] by blast
  with a show "parseABV (pre @ ds @ ''.'' @ fs @ rest) = Num (tokenValue ds fs)"
    using parseFloat_token(2) [of ds fs] by (simp add: parseABV_def)
next
  show "parseABV ''4.5%'' = Num 4.5" by code_simp
  show "parseABV ''N/A'' = Num 0" by code_simp
  show "parseABV ''5'' = Num 5.0" by code_simp
qed

theorem parseABV_first_token_witness:
  "parseABV ''ABV: 12.50% vol. 3'' = Num 12.5 \<and> parseABV ''about 7 percent'' = Num 7 \<and>
   parseABV ''n/a'' = Num 0"
proof -
  have d: "\<forall>c \<in> set ''ABV: ''. \<not> isDigit c" "''12'' \<noteq> []" "\<forall>c \<in> set ''12''. isDigit c"
      "\<forall>c \<in> set ''50''. isDigit c" "''% vol. 3'' = [] \<or> \<not> isDigit (hd ''% vol. 3'')"
    by (simp_all add: isDigit_def)
  have v: "tokenValue ''12'' ''50'' = 12.5" by code_simp
  have e: "\<forall>c \<in> set ''about ''. \<not> isDigit c" "''7'' \<noteq> []" "\<forall>c \<in> set ''7''. isDigit c"
      "'' percent'' = [] \<or> (\<not> isDigit (hd '' percent'') \<and> hd '' percent'' \<noteq> CHR ''.'')"
    by (simp_all add: isDigit_def)
  have w: "(of_nat (decimal ''7'') :: rat) = 7" by code_simp
  have n: "\<forall>c \<in> set ''n/a''. \<not> isDigit c" by (simp add: isDigit_def)
  show ?thesis
    using parseABV_first_token [of "''n/a''" "''ABV: ''" "''12''" "''% vol. 3''" "''50''"] 
      parseABV_first_token [of "''n/a''" "''about ''" "''7''" "'' percent''" "''''"]
      d e v w n
    by simp
qed

subsection \<open>The style classifier\<close>

lemma startsWith_iff: "startsWith s k \<longleftrightarrow> (\<exists>q. s = k @ q)"
  by (induction s k rule: startsWith.induct) auto

text \<open>The scan of \<open>includes_str\<close> finds a keyword exactly when it occurs in the text.\<close>

lemma includes_str_iff: "includes_str s k \<longleftrightarrow> occursIn k s"
proof (induction s)
  case Nil
  show ?case by (simp add: occursIn_def)
next
  case (Cons c cs)
  have "occursIn k (c # cs) \<longleftrightarrow> (\<exists>q. c # cs = k @ q) \<or> occursIn k cs"
  proof
    assume "occursIn k (c # cs)"
    then obtain p q where pq: "c # cs = p @ k @ q"
      by (auto simp add: occursIn_def)
    show "(\<exists>q. c # cs = k @ q) \<or> occursIn k cs"
    proof (cases p)
      case Nil
      with pq show ?thesis by auto
    next
      case (Cons x p')
      with pq have "cs = p' @ k @ q" by simp
      then show ?thesis by (auto simp add: occursIn_def)
    qed
  next
    assume "(\<exists>q. c # cs = k @ q) \<or> occursIn k cs"
    then show "occursIn k (c # cs)"
    proof
      assume "\<exists>q. c # cs = k @ q"
      then obtain q where "c # cs = [] @ k @ q" by auto
      then show ?thesis unfolding occursIn_def by blast
    next
      assume "occursIn k cs"
      then obtain p q where "cs = p @ k @ q" by (auto simp add: occursIn_def)
      then have "c # cs = (c # p) @ k @ q" by simp
      then show ?thesis unfolding occursIn_def by blast
    qed
  qed
  with Cons show ?case
    by (simp add: startsWith_iff)
qed

lemma anyKeyword_iff: "anyKeyword s ks \<longleftrightarrow> (\<exists>k \<in> set ks. occursIn k s)"
  by (induction ks) (auto simp add: includes_str_iff)

lemma firstType_find: "firstType s ts = map_option category (find (ruleMatches s) ts)"
  by (induction ts) (simp_all add: anyKeyword_iff ruleMatches_def)

text \<open>
  Claim C2. The classifier lower-cases its input and returns the category of the first
  rule of the table, read from the top, one of whose keywords occurs in the lower-cased
  text; with no such rule it returns \<open>null\<close>, the unclassified result. In particular
  \<open>India Pale Ale, 5.2%\<close> is IPA, \<open>Best Bitter\<close> is Bitter and \<open>Unknown Fruit Thing\<close> is
  unclassified.
\<close>

theorem classifier_first_match:
  "extractCleanBeerStyle styleText =
     map_option category (find (ruleMatches (toLowerCase styleText)) coreTypes) \<and>
   extractCleanBeerStyle ''India Pale Ale, 5.2%'' = Some ''IPA'' \<and>
   extractCleanBeerStyle ''Best Bitter'' = Some ''Bitter'' \<and>
   extractCleanBeerStyle ''Unknown Fruit Thing'' = None"
proof (intro conjI)
  show "extractCleanBeerStyle styleText =
     map_option category (find (ruleMatches (toLowerCase styleText)) coreTypes)"
    by (simp add: extractCleanBeerStyle_def firstType_find)
  show "extractCleanBeerStyle ''India Pale Ale, 5.2%'' = Some ''IPA''" by code_simp
  show "extractCleanBeerStyle ''Best Bitter'' = Some ''Bitter''" by code_simp
  show "extractCleanBeerStyle ''Unknown Fruit Thing'' = None" by code_simp
qed

text \<open>
  An instance where two rules match: \<open>American Pale Ale\<close> has a keyword of the Pale Ale
  rule and the keyword of the Ale rule, and the earlier rule wins.
\<close>

theorem classifier_first_match_witness:
  "ruleMatches (toLowerCase ''American Pale Ale'')
     \<lparr>keywords_of = [''pale ale''], category = ''Pale Ale''\<rparr> \<and>
   ruleMatches (toLowerCase ''American Pale Ale'')
     \<lparr>keywords_of = [''ale''], category = ''Ale''\<rparr> \<and>
   map_option category (find (ruleMatches (toLowerCase ''American Pale Ale'')) coreTypes) =
     Some ''Pale Ale''"
proof -
  have a: "anyKeyword (toLowerCase ''American Pale Ale'') [''pale ale'']"
      "anyKeyword (toLowerCase ''American Pale Ale'') [''ale'']"
    by code_simp+
  have e: "extractCleanBeerStyle ''American Pale Ale'' = Some ''Pale Ale''"
    by code_simp
  from a e classifier_first_match [of "''American Pale Ale''"] show ?thesis
    by (simp add: ruleMatches_def anyKeyword_iff)
qed

subsection \<open>The filter\<close>

lemma filter_js_total:
  "\<forall>x \<in> set xs. \<exists>k. f x = Inr k \<Longrightarrow> filter_js f xs = Inr (filter (\<lambda>x. f x = Inr True) xs)"
  by (induction xs) auto

lemma filter_js_Inr:
  "filter_js f xs = Inr ys \<Longrightarrow> (\<forall>x \<in> set xs. \<exists>k. f x = Inr k) \<and> ys = filter (\<lambda>x. f x = Inr True) xs"
  by (induction xs arbitrary: ys) (auto split: sum.splits if_splits)

lemma filter_js_throws:
  "x \<in> set xs \<Longrightarrow> f x = Inl e \<Longrightarrow> \<forall>y \<in> set xs. (\<exists>k. f y = Inr k) \<or> f y = Inl e \<Longrightarrow>
     filter_js f xs = Inl e"
proof (induction xs)
  case Nil
  then show ?case by simp
next
  case (Cons y ys)
  from Cons.prems(3) have y: "(\<exists>k. f y = Inr k) \<or> f y = Inl e"
    and ys: "\<forall>z \<in> set ys. (\<exists>k. f z = Inr k) \<or> f z = Inl e"
    by simp_all
  from y show ?case
  proof
    assume "\<exists>k. f y = Inr k"
    then obtain k where k: "f y = Inr k" ..
    with Cons.prems(1,2) have "x \<in> set ys" by auto
    then have "filter_js f ys = Inl e"
      using Cons.IH Cons.prems(2) ys by blast
    with k show ?thesis by simp
  next
    assume "f y = Inl e"
    then show ?thesis by simp
  qed
qed

lemma matchesStyle_throws:
  "sel \<noteq> [] \<Longrightarrow> extractCleanBeerStyle (style b) = None \<Longrightarrow> matchesStyle sel b = Inl TypeError"
  by (simp add: matchesStyle_def)

lemma matchesStyle_returns:
  "sel = [] \<or> extractCleanBeerStyle (style b) \<noteq> None \<Longrightarrow> \<exists>k. matchesStyle sel b = Inr k"
  by (cases "extractCleanBeerStyle (style b)") (auto simp add: matchesStyle_def)

lemma filterCallback_cases:
  "filterCallback els a b =
     (if styleFilter els \<noteq> [] \<and> extractCleanBeerStyle (style b) = None then Inl TypeError
      else Inr (matchesSearch (toLowerCase (searchInput els)) b \<and> matchesBar (barFilter els) b \<and>
                matchesStyle (styleFilter els) b = Inr True \<and>
                matchesAvailability (availabilityFilter els) (getBeerAvailability a b) \<and>
                matchesABV (parseFloat (abvMin els)) (parseFloat (abvMax els)) b))"
proof (cases "styleFilter els \<noteq> [] \<and> extractCleanBeerStyle (style b) = None")
  case True
  then have "matchesStyle (styleFilter els) b = Inl TypeError"
    by (simp add: matchesStyle_throws)
  with True show ?thesis
    by (simp add: filterCallback_def Let_def)
next
  case False
  then obtain k where k: "matchesStyle (styleFilter els) b = Inr k"
    using matchesStyle_returns [of "styleFilter els" b] by blast
  from False show ?thesis
    by (simp add: filterCallback_def Let_def k)
qed

lemma getBeerAvailability_beers [simp]:
  "getBeerAvailability (a\<lparr>beers := xs\<rparr>) = getBeerAvailability a"
  "getBeerAvailability (a\<lparr>filteredBeers := xs\<rparr>) = getBeerAvailability a"
  by (simp_all add: getBeerAvailability_def fun_eq_iff)

lemma filterCallback_beers [simp]:
  "filterCallback els (a\<lparr>beers := xs\<rparr>) = filterCallback els a"
  "filterCallback els (a\<lparr>filteredBeers := xs\<rparr>) = filterCallback els a"
  by (simp_all add: filterCallback_cases fun_eq_iff)

lemma filterCallback_only_TypeError:
  "(\<exists>k. filterCallback els a b = Inr k) \<or> filterCallback els a b = Inl TypeError"
  by (simp add: filterCallback_cases)

lemma style_clause_throws:
  assumes "styleFilter els \<noteq> []" and "b \<in> set (beers a)" and "extractCleanBeerStyle (style b) = None"
  shows "filterBeers els a = Inl TypeError"
proof -
  have "filterCallback els a b = Inl TypeError"
    using assms(1,3) by (simp add: filterCallback_cases)
  moreover have "\<forall>y \<in> set (beers a).
      (\<exists>k. filterCallback els a y = Inr k) \<or> filterCallback els a y = Inl TypeError"
    using filterCallback_only_TypeError by blast
  ultimately have "filter_js (filterCallback els a) (beers a) = Inl TypeError"
    using assms(2) filter_js_throws [of b "beers a" "filterCallback els a" TypeError] by blast
  then show ?thesis by (simp add: filterBeers_def)
qed


text \<open>On a classified record the style clause is the disjunction of the claim.\<close>

lemma style_clause_when_classified:
  "extractCleanBeerStyle (style b) = Some c \<Longrightarrow>
     matchesStyle sel b =
       Inr (sel = [] \<or> includes_str (toLowerCase c) (toLowerCase sel) \<or>
            includes_str (toLowerCase (style b)) (toLowerCase sel))"
  by (simp add: matchesStyle_def)

text \<open>
  Claim C5. The claim is that the style clause passes a record exactly when the style
  filter is empty, or the classified category contains the filter value, or the raw style
  contains it, and that an unclassified record is evaluated like any other. The code
  calls \<open>toLowerCase\<close> on the classifier's result without a check for \<open>null\<close>: with a
  style selected, an unclassified record makes the callback throw, and the throw ends the
  whole pass. The theorem evaluates the code on a list of one IPA and one unclassified
  beer with the style filter \<open>IPA\<close>.
\<close>

theorem style_filter_throws_on_unclassified:
  "extractCleanBeerStyle ''Unknown Fruit Thing'' = None \<and>
   matchesStyle ''IPA''
     \<lparr>brewery = ''Brewer B'', beer = ''Oddity'', style = ''Unknown Fruit Thing'',
      abv = Num 4, location = ''Tent 1'', bar = ''Bar X''\<rparr> = Inl TypeError \<and>
   filterBeers
     \<lparr>searchInput = '''', barFilter = '''', styleFilter = ''IPA'', availabilityFilter = '''',
      abvMin = ''0'', abvMax = ''12''\<rparr>
     ((initialApp None)
        \<lparr>beers := [\<lparr>brewery = ''Brewer A'', beer = ''Hoppy'', style = ''India Pale Ale'',
                    abv = Num 5, location = ''Tent 1'', bar = ''Bar X''\<rparr>,
                   \<lparr>brewery = ''Brewer B'', beer = ''Oddity'', style = ''Unknown Fruit Thing'',
                    abv = Num 4, location = ''Tent 1'', bar = ''Bar X''\<rparr>]\<rparr>) = Inl TypeError"
proof (intro conjI)
  show u: "extractCleanBeerStyle ''Unknown Fruit Thing'' = None" by code_simp
  show "matchesStyle ''IPA''
     \<lparr>brewery = ''Brewer B'', beer = ''Oddity'', style = ''Unknown Fruit Thing'',
      abv = Num 4, location = ''Tent 1'', bar = ''Bar X''\<rparr> = Inl TypeError"
    by (simp add: matchesStyle_def u)
  show "filterBeers
     \<lparr>searchInput = '''', barFilter = '''', styleFilter = ''IPA'', availabilityFilter = '''',
      abvMin = ''0'', abvMax = ''12''\<rparr>
     ((initialApp None)
        \<lparr>beers := [\<lparr>brewery = ''Brewer A'', beer = ''Hoppy'', style = ''India Pale Ale'',
                    abv = Num 5, location = ''Tent 1'', bar = ''Bar X''\<rparr>,
                   \<lparr>brewery = ''Brewer B'', beer = ''Oddity'', style = ''Unknown Fruit Thing'',
                    abv = Num 4, location = ''Tent 1'', bar = ''Bar X''\<rparr>]\<rparr>) = Inl TypeError"
    by (rule style_clause_throws [where b = "\<lparr>brewery = ''Brewer B'', beer = ''Oddity'', style = ''Unknown Fruit Thing'',
                    abv = Num 4, location = ''Tent 1'', bar = ''Bar X''\<rparr>"]) (simp_all add: u)
qed



text \<open>
  What the filter does on the inputs where it returns. When no record makes the style
  clause throw (no style is selected, or every record is classified) the pass returns.
  Whenever it returns, only \<open>filteredBeers\<close> of the state changes, and it becomes the
  records of \<open>beers\<close>, in their order, for which the five clauses hold together; filtering
  that result again under the same form values and the same cache returns it unchanged.
\<close>

lemma filter_result_when_returns:
  "((styleFilter els = [] \<or> (\<forall>b \<in> set (beers a). extractCleanBeerStyle (style b) \<noteq> None)) \<longrightarrow>
      (\<exists>a'. filterBeers els a = Inr a')) \<and>
   (filterBeers els a = Inr a' \<longrightarrow>
      a' = a\<lparr>filteredBeers :=
               filter (\<lambda>b. matchesSearch (toLowerCase (searchInput els)) b \<and>
                            matchesBar (barFilter els) b \<and>
                            matchesStyle (styleFilter els) b = Inr True \<and>
                            matchesAvailability (availabilityFilter els) (getBeerAvailability a b) \<and>
                            matchesABV (parseFloat (abvMin els)) (parseFloat (abvMax els)) b)
                 (beers a)\<rparr> \<and>
      filterBeers els (a'\<lparr>beers := filteredBeers a'\<rparr>) = Inr (a'\<lparr>beers := filteredBeers a'\<rparr>))"
proof (intro conjI impI)
  assume "styleFilter els = [] \<or> (\<forall>b \<in> set (beers a). extractCleanBeerStyle (style b) \<noteq> None)"
  then have "\<forall>b \<in> set (beers a). \<exists>k. filterCallback els a b = Inr k"
    by (auto simp add: filterCallback_cases)
  then show "\<exists>a'. filterBeers els a = Inr a'"
    by (simp add: filterBeers_def filter_js_total)
next
  assume r: "filterBeers els a = Inr a'"
  then obtain fs where fs: "filter_js (filterCallback els a) (beers a) = Inr fs"
    and a': "a' = a\<lparr>filteredBeers := fs\<rparr>"
    by (auto simp add: filterBeers_def split: sum.splits)
  from filter_js_Inr [OF fs]
  have ok: "\<forall>b \<in> set (beers a). \<exists>k. filterCallback els a b = Inr k"
    and fs_eq: "fs = filter (\<lambda>b. filterCallback els a b = Inr True) (beers a)"
    by simp_all
  have "filter (\<lambda>b. filterCallback els a b = Inr True) (beers a) =
        filter (\<lambda>b. matchesSearch (toLowerCase (searchInput els)) b \<and>
                            matchesBar (barFilter els) b \<and>
                            matchesStyle (styleFilter els) b = Inr True \<and>
                            matchesAvailability (availabilityFilter els) (getBeerAvailability a b) \<and>
                            matchesABV (parseFloat (abvMin els)) (parseFloat (abvMax els)) b)
                 (beers a)"
    by (rule filter_cong [OF refl])
       (auto simp add: filterCallback_cases matchesStyle_def split: if_splits)
  with fs_eq a' show "a' = a\<lparr>filteredBeers :=
               filter (\<lambda>b. matchesSearch (toLowerCase (searchInput els)) b \<and>
                            matchesBar (barFilter els) b \<and>
                            matchesStyle (styleFilter els) b = Inr True \<and>
                            matchesAvailability (availabilityFilter els) (getBeerAvailability a b) \<and>
                            matchesABV (parseFloat (abvMin els)) (parseFloat (abvMax els)) b)
                 (beers a)\<rparr>"
    by simp
  have "\<forall>b \<in> set fs. \<exists>k. filterCallback els a b = Inr k"
    using ok fs_eq by auto
  then have "filter_js (filterCallback els a) fs = Inr (filter (\<lambda>b. filterCallback els a b = Inr True) fs)"
    by (rule filter_js_total)
  also have "filter (\<lambda>b. filterCallback els a b = Inr True) fs = fs"
    by (simp add: fs_eq)
  finally show "filterBeers els (a'\<lparr>beers := filteredBeers a'\<rparr>) = Inr (a'\<lparr>beers := filteredBeers a'\<rparr>)"
    by (simp add: filterBeers_def a')
qed



text \<open>An instance, with every filter set: one record of three passes.\<close>

lemma filter_result_when_returns_instance:
  "\<exists>a'. filterBeers
          \<lparr>searchInput = ''brewer'', barFilter = ''Bar X'', styleFilter = ''ipa'',
           availabilityFilter = ''unavailable'', abvMin = ''3'', abvMax = ''6''\<rparr>
          ((initialApp None)
             \<lparr>beers := [\<lparr>brewery = ''Brewer A'', beer = ''Hoppy'', style = ''India Pale Ale'',
                         abv = Num 5, location = ''Tent 1'', bar = ''Bar X''\<rparr>,
                        \<lparr>brewery = ''Brewer B'', beer = ''Best'', style = ''Best Bitter'',
                         abv = Num 4, location = ''Tent 1'', bar = ''Bar X''\<rparr>,
                        \<lparr>brewery = ''Brewer C'', beer = ''Big'', style = ''Double IPA'',
                         abv = Num 7, location = ''Tent 2'', bar = ''Bar X''\<rparr>]\<rparr>) = Inr a' \<and>
        filteredBeers a' = [\<lparr>brewery = ''Brewer A'', beer = ''Hoppy'', style = ''India Pale Ale'',
                              abv = Num 5, location = ''Tent 1'', bar = ''Bar X''\<rparr>] \<and>
        filterBeers
          \<lparr>searchInput = ''brewer'', barFilter = ''Bar X'', styleFilter = ''ipa'',
           availabilityFilter = ''unavailable'', abvMin = ''3'', abvMax = ''6''\<rparr>
          (a'\<lparr>beers := filteredBeers a'\<rparr>) = Inr (a'\<lparr>beers := filteredBeers a'\<rparr>)"
proof -
  let ?els = "\<lparr>searchInput = ''brewer'', barFilter = ''Bar X'', styleFilter = ''ipa'',
           availabilityFilter = ''unavailable'', abvMin = ''3'', abvMax = ''6''\<rparr>"
  let ?a = "(initialApp None)
             \<lparr>beers := [\<lparr>brewery = ''Brewer A'', beer = ''Hoppy'', style = ''India Pale Ale'',
                         abv = Num 5, location = ''Tent 1'', bar = ''Bar X''\<rparr>,
                        \<lparr>brewery = ''Brewer B'', beer = ''Best'', style = ''Best Bitter'',
                         abv = Num 4, location = ''Tent 1'', bar = ''Bar X''\<rparr>,
                        \<lparr>brewery = ''Brewer C'', beer = ''Big'', style = ''Double IPA'',
                         abv = Num 7, location = ''Tent 2'', bar = ''Bar X''\<rparr>]\<rparr>"
  let ?F = "filter (\<lambda>b. matchesSearch (toLowerCase (searchInput ?els)) b \<and>
                            matchesBar (barFilter ?els) b \<and>
                            matchesStyle (styleFilter ?els) b = Inr True \<and>
                            matchesAvailability (availabilityFilter ?els) (getBeerAvailability ?a b) \<and>
                            matchesABV (parseFloat (abvMin ?els)) (parseFloat (abvMax ?els)) b)
                 (beers ?a)"
  have h: "styleFilter ?els = [] \<or> (\<forall>b \<in> set (beers ?a). extractCleanBeerStyle (style b) \<noteq> None)"
    by code_simp
  have f: "?F = [\<lparr>brewery = ''Brewer A'', beer = ''Hoppy'', style = ''India Pale Ale'',
                              abv = Num 5, location = ''Tent 1'', bar = ''Bar X''\<rparr>]"
    by code_simp
  from h filter_result_when_returns [of ?els ?a] obtain a' where r: "filterBeers ?els ?a = Inr a'"
    by blast
  with filter_result_when_returns [of ?els ?a a']
  have eq: "a' = ?a\<lparr>filteredBeers := ?F\<rparr>"
    and idem: "filterBeers ?els (a'\<lparr>beers := filteredBeers a'\<rparr>) = Inr (a'\<lparr>beers := filteredBeers a'\<rparr>)"
    by blast+
  have "filteredBeers (?a\<lparr>filteredBeers := ?F\<rparr>) = ?F"
    by simp
  then have "filteredBeers a' = ?F" by (simp only: eq)
  then have "filteredBeers a' = [\<lparr>brewery = ''Brewer A'', beer = ''Hoppy'', style = ''India Pale Ale'',
                              abv = Num 5, location = ''Tent 1'', bar = ''Bar X''\<rparr>]"
    by (simp only: f)
  with r idem show ?thesis by blast
qed


text \<open>
  Claim C7. The claim is that, for every list of records and every form values, the
  output of the filter is the sub-list of the records that satisfy the clauses together,
  in the order of the input, so that filtering a second time changes nothing. The code
  does so only when no record makes the style clause throw. With a style selected, one
  record whose style no rule classifies (here a record with an empty style cell) ends
  the pass with a \<open>TypeError\<close>: there is no output, also for the records that satisfy
  every clause. The theorem evaluates the code on a Bitter and a record without style
  under the style filter \<open>Bitter\<close>: the pass throws, while on the Bitter alone it
  returns the Bitter.
\<close>

theorem filter_pass_aborts_on_unclassified:
  "extractCleanBeerStyle '''' = None \<and>
   filterBeers
     \<lparr>searchInput = '''', barFilter = '''', styleFilter = ''Bitter'', availabilityFilter = '''',
      abvMin = ''0'', abvMax = ''12''\<rparr>
     ((initialApp None)
        \<lparr>beers := [\<lparr>brewery = ''Brewer A'', beer = ''Best'', style = ''Best Bitter'',
                    abv = Num 4, location = ''Tent 1'', bar = ''Bar X''\<rparr>,
                   \<lparr>brewery = ''Brewer B'', beer = ''Plain'', style = '''',
                    abv = Num 5, location = ''Tent 1'', bar = ''Bar X''\<rparr>]\<rparr>) = Inl TypeError \<and>
   (\<exists>a'. filterBeers
           \<lparr>searchInput = '''', barFilter = '''', styleFilter = ''Bitter'',
            availabilityFilter = '''', abvMin = ''0'', abvMax = ''12''\<rparr>
           ((initialApp None)
              \<lparr>beers := [\<lparr>brewery = ''Brewer A'', beer = ''Best'', style = ''Best Bitter'',
                          abv = Num 4, location = ''Tent 1'', bar = ''Bar X''\<rparr>]\<rparr>) = Inr a' \<and>
         filteredBeers a' = [\<lparr>brewery = ''Brewer A'', beer = ''Best'', style = ''Best Bitter'',
                               abv = Num 4, location = ''Tent 1'', bar = ''Bar X''\<rparr>])"
proof (intro conjI)
  show u: "extractCleanBeerStyle '''' = None" by code_simp
  show "filterBeers
     \<lparr>searchInput = '''', barFilter = '''', styleFilter = ''Bitter'', availabilityFilter = '''',
      abvMin = ''0'', abvMax = ''12''\<rparr>
     ((initialApp None)
        \<lparr>beers := [\<lparr>brewery = ''Brewer A'', beer = ''Best'', style = ''Best Bitter'',
                    abv = Num 4, location = ''Tent 1'', bar = ''Bar X''\<rparr>,
                   \<lparr>brewery = ''Brewer B'', beer = ''Plain'', style = '''',
                    abv = Num 5, location = ''Tent 1'', bar = ''Bar X''\<rparr>]\<rparr>) = Inl TypeError"
    by (rule style_clause_throws [where b = "\<lparr>brewery = ''Brewer B'', beer = ''Plain'',
          style = '''', abv = Num 5, location = ''Tent 1'', bar = ''Bar X''\<rparr>"])
       (simp_all add: u)
  define e where "e = \<lparr>searchInput = '''', barFilter = '''', styleFilter = ''Bitter'',
            availabilityFilter = '''', abvMin = ''0'', abvMax = ''12''\<rparr>"
  define x where "x = \<lparr>brewery = ''Brewer A'', beer = ''Best'', style = ''Best Bitter'',
                          abv = Num 4, location = ''Tent 1'', bar = ''Bar X''\<rparr>"
  define a where "a = (initialApp None)\<lparr>beers := [x]\<rparr>"
  have c: "extractCleanBeerStyle (style x) \<noteq> None"
    unfolding x_def by code_simp
  have bs: "beers a = [x]"
    by (simp add: a_def)
  have h: "styleFilter e = [] \<or> (\<forall>b \<in> set (beers a). extractCleanBeerStyle (style b) \<noteq> None)"
    using c by (simp add: bs)
  note ret = filter_result_when_returns [of e a, THEN conjunct1, THEN mp, OF h]
  then obtain a' where r: "filterBeers e a = Inr a'" ..
  note res = filter_result_when_returns [of e a a', THEN conjunct2, THEN mp, OF r, THEN conjunct1]
  have keep: "matchesSearch (toLowerCase (searchInput e)) x \<and> matchesBar (barFilter e) x \<and>
      matchesStyle (styleFilter e) x = Inr True \<and>
      matchesAvailability (availabilityFilter e) (getBeerAvailability a x) \<and>
      matchesABV (parseFloat (abvMin e)) (parseFloat (abvMax e)) x"
    unfolding e_def x_def a_def by code_simp
  have "filteredBeers a' = [x]"
    by (subst res) (simp add: bs keep)
  with r have "\<exists>a'. filterBeers e a = Inr a' \<and> filteredBeers a' = [x]"
    by (intro exI conjI)
  then show "\<exists>a'. filterBeers
           \<lparr>searchInput = '''', barFilter = '''', styleFilter = ''Bitter'',
            availabilityFilter = '''', abvMin = ''0'', abvMax = ''12''\<rparr>
           ((initialApp None)
              \<lparr>beers := [\<lparr>brewery = ''Brewer A'', beer = ''Best'', style = ''Best Bitter'',
                          abv = Num 4, location = ''Tent 1'', bar = ''Bar X''\<rparr>]\<rparr>) = Inr a' \<and>
         filteredBeers a' = [\<lparr>brewery = ''Brewer A'', beer = ''Best'', style = ''Best Bitter'',
                               abv = Num 4, location = ''Tent 1'', bar = ''Bar X''\<rparr>]"
    unfolding e_def a_def x_def .
qed

lemma filterBeers_result:
  assumes "filterBeers els a = Inr a'"
  shows "a' = a\<lparr>filteredBeers := filter (\<lambda>b. filterCallback els a b = Inr True) (beers a)\<rparr>"
proof -
  from assms obtain fs where fs: "filter_js (filterCallback els a) (beers a) = Inr fs"
    and a': "a' = a\<lparr>filteredBeers := fs\<rparr>"
    by (auto simp add: filterBeers_def split: sum.splits)
  from filter_js_Inr [OF fs] a' show ?thesis by simp
qed

lemma matchesABV_num:
  "matchesABV (Num lo) (Num hi) b \<longleftrightarrow> (\<exists>v. abv b = Num v \<and> lo \<le> v \<and> v \<le> hi)"
  by (cases "abv b") (simp_all add: matchesABV_def num_ge_def)

lemma toLowerCase_Nil [simp]: "toLowerCase [] = []"
  by (simp add: toLowerCase_def)

lemma filterBeers_abv_only:
  assumes "searchInput els = []" and "barFilter els = []" and "styleFilter els = []"
    and "availabilityFilter els = []"
  shows "filterBeers els a =
     Inr (a\<lparr>filteredBeers :=
              filter (matchesABV (parseFloat (abvMin els)) (parseFloat (abvMax els))) (beers a)\<rparr>)"
proof -
  have c: "filterCallback els a b =
      Inr (matchesABV (parseFloat (abvMin els)) (parseFloat (abvMax els)) b)" for b
    using assms
    by (simp add: filterCallback_cases matchesSearch_def matchesBar_def matchesStyle_def
        matchesAvailability_def)
  then have "\<forall>b \<in> set (beers a). \<exists>k. filterCallback els a b = Inr k"
    by simp
  then have "filter_js (filterCallback els a) (beers a) =
      Inr (filter (\<lambda>b. filterCallback els a b = Inr True) (beers a))"
    by (rule filter_js_total)
  then show ?thesis
    by (simp add: filterBeers_def c)
qed

text \<open>
  Claim C6. Every record a pass returns has an ABV between the two bounds, both
  included; with the other four filters empty the pass returns exactly the records
  within the bounds; on records with ABVs 3, 4, 5, 6, 7 and the bounds 4 and 6 it
  returns the second, third and fourth; and a record whose ABV is 0 is never returned
  when the lower bound is above 0.
\<close>

theorem abv_clause_inclusive:
  "(filterBeers els a = Inr a' \<and> parseFloat (abvMin els) = Num lo \<and>
      parseFloat (abvMax els) = Num hi \<longrightarrow>
      (\<forall>b \<in> set (filteredBeers a'). \<exists>v. abv b = Num v \<and> lo \<le> v \<and> v \<le> hi)) \<and>
   (searchInput els = [] \<and> barFilter els = [] \<and> styleFilter els = [] \<and>
      availabilityFilter els = [] \<and> parseFloat (abvMin els) = Num lo \<and>
      parseFloat (abvMax els) = Num hi \<longrightarrow>
      filterBeers els a =
        Inr (a\<lparr>filteredBeers :=
                 filter (\<lambda>b. num_ge (abv b) (Num lo) \<and> num_le (abv b) (Num hi)) (beers a)\<rparr>)) \<and>
   (map abv (beers a) = [Num 3, Num 4, Num 5, Num 6, Num 7] \<and>
      searchInput els = [] \<and> barFilter els = [] \<and> styleFilter els = [] \<and>
      availabilityFilter els = [] \<and> abvMin els = ''4'' \<and> abvMax els = ''6'' \<longrightarrow>
      (\<exists>a'. filterBeers els a = Inr a' \<and>
            filteredBeers a' = [beers a ! 1, beers a ! 2, beers a ! 3] \<and>
            map abv (filteredBeers a') = [Num 4, Num 5, Num 6])) \<and>
   (filterBeers els a = Inr a' \<and> parseFloat (abvMin els) = Num lo \<and> 0 < lo \<and>
      abv b = Num 0 \<longrightarrow> b \<notin> set (filteredBeers a'))"
proof (intro conjI impI)
  assume h: "filterBeers els a = Inr a' \<and> parseFloat (abvMin els) = Num lo \<and>
      parseFloat (abvMax els) = Num hi"
  then have fb: "filteredBeers a' = filter (\<lambda>b. filterCallback els a b = Inr True) (beers a)"
    using filterBeers_result [of els a a'] by simp
  show "\<forall>b \<in> set (filteredBeers a'). \<exists>v. abv b = Num v \<and> lo \<le> v \<and> v \<le> hi"
  proof
    fix b assume "b \<in> set (filteredBeers a')"
    with fb have "filterCallback els a b = Inr True" by simp
    then have "matchesABV (Num lo) (Num hi) b"
      using h by (simp add: filterCallback_cases split: if_splits)
    then show "\<exists>v. abv b = Num v \<and> lo \<le> v \<and> v \<le> hi"
      by (simp add: matchesABV_num)
  qed
next
  assume h: "searchInput els = [] \<and> barFilter els = [] \<and> styleFilter els = [] \<and>
      availabilityFilter els = [] \<and> parseFloat (abvMin els) = Num lo \<and>
      parseFloat (abvMax els) = Num hi"
  then show "filterBeers els a =
        Inr (a\<lparr>filteredBeers :=
                 filter (\<lambda>b. num_ge (abv b) (Num lo) \<and> num_le (abv b) (Num hi)) (beers a)\<rparr>)"
    using filterBeers_abv_only [of els a] by (simp add: matchesABV_def [abs_def])
next
  assume h: "map abv (beers a) = [Num 3, Num 4, Num 5, Num 6, Num 7] \<and>
      searchInput els = [] \<and> barFilter els = [] \<and> styleFilter els = [] \<and>
      availabilityFilter els = [] \<and> abvMin els = ''4'' \<and> abvMax els = ''6''"
  have p: "parseFloat ''4'' = Num 4" "parseFloat ''6'' = Num 6"
    by code_simp+
  from h obtain b0 b1 b2 b3 b4 where bs: "beers a = [b0, b1, b2, b3, b4]"
    and v: "abv b0 = Num 3" "abv b1 = Num 4" "abv b2 = Num 5" "abv b3 = Num 6" "abv b4 = Num 7"
    by (auto simp add: map_eq_Cons_conv)
  have "filterBeers els a =
      Inr (a\<lparr>filteredBeers := filter (matchesABV (Num 4) (Num 6)) (beers a)\<rparr>)"
    using h filterBeers_abv_only [of els a] by (simp add: p)
  moreover have "filter (matchesABV (Num 4) (Num 6)) (beers a) = [b1, b2, b3]"
    by (simp add: bs v matchesABV_def num_ge_def)
  ultimately show "\<exists>a'. filterBeers els a = Inr a' \<and>
            filteredBeers a' = [beers a ! 1, beers a ! 2, beers a ! 3] \<and>
            map abv (filteredBeers a') = [Num 4, Num 5, Num 6]"
    by (simp add: bs v)
next
  assume h: "filterBeers els a = Inr a' \<and> parseFloat (abvMin els) = Num lo \<and> 0 < lo \<and>
      abv b = Num 0"
  then have fb: "filteredBeers a' = filter (\<lambda>b. filterCallback els a b = Inr True) (beers a)"
    using filterBeers_result [of els a a'] by simp
  have "\<not> matchesABV (Num lo) (parseFloat (abvMax els)) b"
    using h by (simp add: matchesABV_def num_ge_def)
  then have "filterCallback els a b \<noteq> Inr True"
    using h by (simp add: filterCallback_cases)
  with fb show "b \<notin> set (filteredBeers a')" by simp
qed

theorem abv_clause_inclusive_witness:
  "(\<exists>a'. filterBeers
           \<lparr>searchInput = [], barFilter = [], styleFilter = [], availabilityFilter = [],
            abvMin = ''4'', abvMax = ''6''\<rparr>
           ((initialApp None)
              \<lparr>beers := map (\<lambda>v. \<lparr>brewery = ''Brewer A'', beer = ''Beer'', style = ''Odd'',
                                      abv = Num v, location = ''Tent 1'', bar = ''Bar X''\<rparr>)
                          [3, 4, 5, 6, 7]\<rparr>) = Inr a' \<and>
         map abv (filteredBeers a') = [Num 4, Num 5, Num 6]) \<and>
   (\<exists>a'. filterBeers
           \<lparr>searchInput = [], barFilter = [], styleFilter = [], availabilityFilter = [],
            abvMin = ''1'', abvMax = ''12''\<rparr>
           ((initialApp None)
              \<lparr>beers := [\<lparr>brewery = ''Brewer A'', beer = ''Unstated'', style = ''Mild'',
                          abv = parseABV ''N/A'', location = ''Tent 1'', bar = ''Bar X''\<rparr>,
                         \<lparr>brewery = ''Brewer A'', beer = ''Stated'', style = ''Mild'',
                          abv = parseABV ''3.6%'', location = ''Tent 1'', bar = ''Bar X''\<rparr>]\<rparr>) = Inr a' \<and>
         \<lparr>brewery = ''Brewer A'', beer = ''Unstated'', style = ''Mild'',
           abv = parseABV ''N/A'', location = ''Tent 1'', bar = ''Bar X''\<rparr> \<notin> set (filteredBeers a') \<and>
         list_all (\<lambda>b. num_ge (abv b) (Num 1) \<and> num_le (abv b) (Num 12)) (filteredBeers a'))"
proof -
  define e where "e = \<lparr>searchInput = [], barFilter = [], styleFilter = [], availabilityFilter = [],
            abvMin = ''4'', abvMax = ''6''\<rparr>"
  define a where "a = (initialApp None)
              \<lparr>beers := map (\<lambda>v. \<lparr>brewery = ''Brewer A'', beer = ''Beer'', style = ''Odd'',
                                      abv = Num v, location = ''Tent 1'', bar = ''Bar X''\<rparr>)
                          [3, 4, 5, 6, 7]\<rparr>"
  define e1 where "e1 = \<lparr>searchInput = [], barFilter = [], styleFilter = [],
            availabilityFilter = [], abvMin = ''1'', abvMax = ''12''\<rparr>"
  define z where "z = \<lparr>brewery = ''Brewer A'', beer = ''Unstated'', style = ''Mild'',
                          abv = parseABV ''N/A'', location = ''Tent 1'', bar = ''Bar X''\<rparr>"
  define a1 where "a1 = (initialApp None)
              \<lparr>beers := [z,
                         \<lparr>brewery = ''Brewer A'', beer = ''Stated'', style = ''Mild'',
                          abv = parseABV ''3.6%'', location = ''Tent 1'', bar = ''Bar X''\<rparr>]\<rparr>"
  have h3: "map abv (beers a) = [Num 3, Num 4, Num 5, Num 6, Num 7] \<and>
      searchInput e = [] \<and> barFilter e = [] \<and> styleFilter e = [] \<and>
      availabilityFilter e = [] \<and> abvMin e = ''4'' \<and> abvMax e = ''6''"
    by (simp add: e_def a_def)
  note c3 = abv_clause_inclusive [of e a, THEN conjunct2, THEN conjunct2, THEN conjunct1,
      THEN mp, OF h3]
  then obtain a3 where "filterBeers e a = Inr a3"
    and "map abv (filteredBeers a3) = [Num 4, Num 5, Num 6]"
    by (elim exE conjE)
  then have first:
    "\<exists>a'. filterBeers e a = Inr a' \<and> map abv (filteredBeers a') = [Num 4, Num 5, Num 6]"
    by (intro exI conjI)
  have p: "parseFloat (abvMin e1) = Num 1" "parseFloat (abvMax e1) = Num 12"
    unfolding e1_def by code_simp+
  have z: "abv z = Num 0"
    unfolding z_def by code_simp
  have h2: "searchInput e1 = [] \<and> barFilter e1 = [] \<and> styleFilter e1 = [] \<and>
      availabilityFilter e1 = [] \<and> parseFloat (abvMin e1) = Num 1 \<and>
      parseFloat (abvMax e1) = Num 12"
    using p by (simp add: e1_def)
  note c2 = abv_clause_inclusive [of e1 a1, THEN conjunct2, THEN conjunct1, THEN mp, OF h2]
  then have "\<exists>a'. filterBeers e1 a1 = Inr a'"
    by (rule exI)
  then obtain a' where r: "filterBeers e1 a1 = Inr a'" ..
  have h4: "filterBeers e1 a1 = Inr a' \<and> parseFloat (abvMin e1) = Num 1 \<and> (0::rat) < 1 \<and>
      abv z = Num 0"
    using r p z by simp
  have h1: "filterBeers e1 a1 = Inr a' \<and> parseFloat (abvMin e1) = Num 1 \<and>
      parseFloat (abvMax e1) = Num 12"
    using r p by simp
  note out = abv_clause_inclusive [of e1 a1 a' 1 12 z, THEN conjunct2, THEN conjunct2,
      THEN conjunct2, THEN mp, OF h4]
  note rng = abv_clause_inclusive [of e1 a1 a' 1 12, THEN conjunct1, THEN mp, OF h1]
  have "list_all (\<lambda>b. num_ge (abv b) (Num 1) \<and> num_le (abv b) (Num 12)) (filteredBeers a')"
    unfolding list_all_iff
  proof
    fix b assume "b \<in> set (filteredBeers a')"
    with rng have "\<exists>v. abv b = Num v \<and> 1 \<le> v \<and> v \<le> 12" by (rule bspec)
    then obtain v where "abv b = Num v" "1 \<le> v" "v \<le> 12" by (elim exE conjE)
    then show "num_ge (abv b) (Num 1) \<and> num_le (abv b) (Num 12)"
      by (simp add: num_ge_def)
  qed
  with r out have second:
    "\<exists>a'. filterBeers e1 a1 = Inr a' \<and> z \<notin> set (filteredBeers a') \<and>
       list_all (\<lambda>b. num_ge (abv b) (Num 1) \<and> num_le (abv b) (Num 12)) (filteredBeers a')"
    by (intro exI conjI)
  from first second show ?thesis
    unfolding e_def a_def e1_def a1_def z_def by (rule conjI)
qed

subsection \<open>The sort\<close>

lemma set_insert_js [simp]: "set (insert_js c x ys) = insert x (set ys)"
  by (induction ys) auto

lemma distinct_insert_js [simp]: "distinct (insert_js c x ys) \<longleftrightarrow> x \<notin> set ys \<and> distinct ys"
  by (induction ys) auto

lemma sort_js_simps [simp]:
  "sort_js c [] = []"
  "sort_js c (x # xs) = insert_js c x (sort_js c xs)"
  by (simp_all add: sort_js_def)

lemma set_sort_js [simp]: "set (sort_js c xs) = set xs"
  by (induction xs) simp_all

lemma distinct_sort_js [simp]: "distinct (sort_js c xs) \<longleftrightarrow> distinct xs"
  by (induction xs) simp_all

text \<open>A comparator that follows a key in a linear order, upwards or downwards.\<close>

lemma sorted_insert_js_up:
  fixes k :: "'a \<Rightarrow> 'k::linorder"
  assumes "\<And>x y. c x y \<le> 0 \<longleftrightarrow> k x \<le> k y"
  shows "sorted (map k ys) \<Longrightarrow> sorted (map k (insert_js c x ys))"
  using assms by (induction ys) auto

lemma sorted_insert_js_down:
  fixes k :: "'a \<Rightarrow> 'k::linorder"
  assumes "\<And>x y. c x y \<le> 0 \<longleftrightarrow> k y \<le> k x"
  shows "sorted (map k (rev ys)) \<Longrightarrow> sorted (map k (rev (insert_js c x ys)))"
  using assms by (induction ys) (auto simp add: sorted_append)

lemma sorted_sort_js_up:
  fixes k :: "'a \<Rightarrow> 'k::linorder"
  assumes "\<And>x y. c x y \<le> 0 \<longleftrightarrow> k x \<le> k y"
  shows "sorted (map k (sort_js c xs))"
proof (induction xs)
  case Nil
  show ?case by simp
next
  case (Cons x xs)
  then have "sorted (map k (insert_js c x (sort_js c xs)))"
    by (rule sorted_insert_js_up [OF assms])
  then show ?case by simp
qed

lemma sorted_sort_js_down:
  fixes k :: "'a \<Rightarrow> 'k::linorder"
  assumes "\<And>x y. c x y \<le> 0 \<longleftrightarrow> k y \<le> k x"
  shows "sorted (map k (rev (sort_js c xs)))"
proof (induction xs)
  case Nil
  show ?case by simp
next
  case (Cons x xs)
  then have "sorted (map k (rev (insert_js c x (sort_js c xs))))"
    by (rule sorted_insert_js_down [OF assms])
  then show ?case by simp
qed

text \<open>With no two keys equal, a set of records has one arrangement in key order.\<close>

lemma sorted_keys_unique:
  fixes k :: "'a \<Rightarrow> 'k::linorder"
  assumes "sorted (map k us)" and "sorted (map k vs)" and "distinct (map k us)"
    and "distinct vs" and "set us = set vs"
  shows "us = vs"
proof -
  have inj: "inj_on k (set us)" and du: "distinct us"
    using assms(3) by (simp_all add: distinct_map)
  then have "distinct (map k vs)"
    using assms(4,5) by (simp add: distinct_map)
  moreover have "set (map k us) = set (map k vs)"
    using assms(5) by simp
  ultimately have "map k us = map k vs"
    using assms(1-3) by (intro sorted_distinct_set_unique)
  moreover have "inj_on k (set us \<union> set vs)"
    using inj assms(5) by simp
  ultimately show ?thesis
    by (simp add: inj_on_map_eq_map)
qed

lemma sort_js_up_then_down:
  fixes k :: "'a \<Rightarrow> 'k::linorder"
  assumes up: "\<And>x y. c1 x y \<le> 0 \<longleftrightarrow> k x \<le> k y"
    and down: "\<And>x y. c2 x y \<le> 0 \<longleftrightarrow> k y \<le> k x"
    and d: "distinct (map k xs)"
  shows "sort_js c2 (sort_js c1 xs) = rev (sort_js c1 xs)"
proof -
  let ?ys = "sort_js c1 xs" and ?zs = "sort_js c2 (sort_js c1 xs)"
  have dx: "distinct xs" and inj: "inj_on k (set xs)"
    using d by (simp_all add: distinct_map)
  have "rev ?zs = ?ys"
  proof (rule sorted_keys_unique [where k = k])
    show "sorted (map k (rev ?zs))" by (rule sorted_sort_js_down [OF down])
    show "sorted (map k ?ys)" by (rule sorted_sort_js_up [OF up])
    show "distinct (map k (rev ?zs))" using dx inj by (simp add: distinct_map)
    show "distinct ?ys" using dx by simp
    show "set (rev ?zs) = set ?ys" by simp
  qed
  then have "rev (rev ?zs) = rev ?ys" by (rule arg_cong)
  then show ?thesis by simp
qed

lemma sort_js_down_then_up:
  fixes k :: "'a \<Rightarrow> 'k::linorder"
  assumes up: "\<And>x y. c1 x y \<le> 0 \<longleftrightarrow> k x \<le> k y"
    and down: "\<And>x y. c2 x y \<le> 0 \<longleftrightarrow> k y \<le> k x"
    and d: "distinct (map k xs)"
  shows "sort_js c1 (sort_js c2 xs) = rev (sort_js c2 xs)"
proof -
  let ?ys = "sort_js c2 xs" and ?zs = "sort_js c1 (sort_js c2 xs)"
  have dx: "distinct xs" and inj: "inj_on k (set xs)"
    using d by (simp_all add: distinct_map)
  show "?zs = rev ?ys"
  proof (rule sorted_keys_unique [where k = k])
    show "sorted (map k ?zs)" by (rule sorted_sort_js_up [OF up])
    show "sorted (map k (rev ?ys))" by (rule sorted_sort_js_down [OF down])
    show "distinct (map k ?zs)" using dx inj by (simp add: distinct_map)
    show "distinct (rev ?ys)" using dx by simp
    show "set ?zs = set (rev ?ys)" by simp
  qed
qed


lemma distinct_map_keys:
  assumes "\<And>x y. K x = K y \<longleftrightarrow> k x = k y"
  shows "distinct (map K xs) \<longleftrightarrow> distinct (map k xs)"
proof (induction xs)
  case Nil
  show ?case by simp
next
  case (Cons x xs)
  have "K x \<in> K ` set xs \<longleftrightarrow> k x \<in> k ` set xs"
    using assms by (auto simp add: image_iff)
  with Cons show ?case by simp
qed

lemma threeWay_up: "threeWay (u < v) (u > v) \<le> 0 \<longleftrightarrow> u \<le> v" for u v :: "'k::linorder"
  by (auto simp add: threeWay_def)

lemma threeWay_down: "- threeWay (u < v) (u > v) \<le> 0 \<longleftrightarrow> v \<le> u" for u v :: "'k::linorder"
  by (auto simp add: threeWay_def)

lemma threeWay_down': "0 \<le> threeWay (u < v) (u > v) \<longleftrightarrow> v \<le> u" for u v :: "'k::linorder"
  by (auto simp add: threeWay_def)

lemma orZero_Num: "orZero v = Num (ratOf (orZero v))"
  by (cases v) (simp_all add: orZero_def ratOf_def)

lemma num_lt_orZero: "num_lt (orZero u) (orZero v) \<longleftrightarrow> ratOf (orZero u) < ratOf (orZero v)"
  by (cases u; cases v) (simp_all add: orZero_def ratOf_def)

lemma orZero_eq_iff: "orZero u = orZero v \<longleftrightarrow> ratOf (orZero u) = ratOf (orZero v)"
  by (cases u; cases v) (simp_all add: orZero_def ratOf_def)

lemma lastSeen_sortTable [simp]: "lastSeen (sortTable c a) = lastSeen a"
  by (simp add: fun_eq_iff lastSeen_def getBeerAvailabilityInfo_def sortTable_def Let_def)

lemma compareBeers_sortTable [simp]: "compareBeers (sortTable c a) col d = compareBeers a col d"
  by (cases col) (simp_all add: compareBeers_def fun_eq_iff)

text \<open>
  For each column the comparator follows a key in a linear order, upwards when the
  direction is ascending and downwards when it is descending.
\<close>

lemma compareBeers_text:
  assumes "compareBeers a col = (\<lambda>d x y. let r = compareText f x y in if d = Desc then - r else r)"
  shows "compareBeers a col Asc x y \<le> 0 \<longleftrightarrow> lowerField f x \<le> lowerField f y"
    and "compareBeers a col Desc x y \<le> 0 \<longleftrightarrow> lowerField f y \<le> lowerField f x"
  by (simp_all add: assms compareText_def threeWay_up threeWay_down threeWay_down')

lemma sort_twice:
  assumes "distinct (map (sortKeyOf a col) xs)"
  shows "sort_js (compareBeers a col Desc) (sort_js (compareBeers a col Asc) xs) =
           rev (sort_js (compareBeers a col Asc) xs)"
    and "sort_js (compareBeers a col Asc) (sort_js (compareBeers a col Desc) xs) =
           rev (sort_js (compareBeers a col Desc) xs)"
proof -
  have text_case:
    "sort_js (compareBeers a col Desc) (sort_js (compareBeers a col Asc) xs) =
           rev (sort_js (compareBeers a col Asc) xs) \<and>
     sort_js (compareBeers a col Asc) (sort_js (compareBeers a col Desc) xs) =
           rev (sort_js (compareBeers a col Desc) xs)"
    if c: "compareBeers a col = (\<lambda>d x y. let r = compareText f x y in if d = Desc then - r else r)"
      and k: "sortKeyOf a col = (\<lambda>b. TextKey (lowerField f b))" for f
  proof -
    have d: "distinct (map (lowerField f) xs)"
      using assms distinct_map_keys [of "sortKeyOf a col" "lowerField f" xs] by (simp add: k)
    show ?thesis
      using sort_js_up_then_down [OF compareBeers_text [OF c] d]
        sort_js_down_then_up [OF compareBeers_text [OF c] d]
      by simp
  qed
  have all: "sort_js (compareBeers a col Desc) (sort_js (compareBeers a col Asc) xs) =
           rev (sort_js (compareBeers a col Asc) xs) \<and>
     sort_js (compareBeers a col Asc) (sort_js (compareBeers a col Desc) xs) =
           rev (sort_js (compareBeers a col Desc) xs)"
  proof (cases col)
    case col_brewery
    show ?thesis
      by (rule text_case [of brewery])
         (simp_all add: col_brewery compareBeers_def sortKeyOf_def fun_eq_iff Let_def)
  next
    case col_beer
    show ?thesis
      by (rule text_case [of beer])
         (simp_all add: col_beer compareBeers_def sortKeyOf_def fun_eq_iff Let_def)
  next
    case col_style
    show ?thesis
      by (rule text_case [of style])
         (simp_all add: col_style compareBeers_def sortKeyOf_def fun_eq_iff Let_def)
  next
    case col_location
    show ?thesis
      by (rule text_case [of location])
         (simp_all add: col_location compareBeers_def sortKeyOf_def fun_eq_iff Let_def)
  next
    case col_bar
    show ?thesis
      by (rule text_case [of bar])
         (simp_all add: col_bar compareBeers_def sortKeyOf_def fun_eq_iff Let_def)
  next
    case col_abv
    let ?k = "\<lambda>b. ratOf (orZero (abv b))"
    have up: "compareBeers a col Asc x y \<le> 0 \<longleftrightarrow> ?k x \<le> ?k y" for x y
      by (simp add: col_abv compareBeers_def num_gt_def num_lt_orZero threeWay_up)
    have down: "compareBeers a col Desc x y \<le> 0 \<longleftrightarrow> ?k y \<le> ?k x" for x y
      by (simp add: col_abv compareBeers_def num_gt_def num_lt_orZero threeWay_down threeWay_down')
    have d: "distinct (map ?k xs)"
      using assms distinct_map_keys [of "sortKeyOf a col" ?k xs]
      by (simp add: col_abv sortKeyOf_def orZero_eq_iff)
    show ?thesis
      using sort_js_up_then_down [of "compareBeers a col Asc" ?k "compareBeers a col Desc", OF up down d]
        sort_js_down_then_up [of "compareBeers a col Asc" ?k "compareBeers a col Desc", OF up down d]
      by simp
  next
    case col_last_seen
    let ?k = "lastSeen a"
    have up: "compareBeers a col Asc x y \<le> 0 \<longleftrightarrow> ?k x \<le> ?k y" for x y
      by (simp add: col_last_seen compareBeers_def threeWay_up)
    have down: "compareBeers a col Desc x y \<le> 0 \<longleftrightarrow> ?k y \<le> ?k x" for x y
      by (simp add: col_last_seen compareBeers_def threeWay_down threeWay_down')
    have d: "distinct (map ?k xs)"
      using assms distinct_map_keys [of "sortKeyOf a col" ?k xs]
      by (simp add: col_last_seen sortKeyOf_def)
    show ?thesis
      using sort_js_up_then_down [of "compareBeers a col Asc" ?k "compareBeers a col Desc", OF up down d]
        sort_js_down_then_up [of "compareBeers a col Asc" ?k "compareBeers a col Desc", OF up down d]
      by simp
  qed
  from all show "sort_js (compareBeers a col Desc) (sort_js (compareBeers a col Asc) xs) =
           rev (sort_js (compareBeers a col Asc) xs)"
    and "sort_js (compareBeers a col Asc) (sort_js (compareBeers a col Desc) xs) =
           rev (sort_js (compareBeers a col Desc) xs)"
    by simp_all
qed

text \<open>
  Claim C8. A call of \<open>sortTable\<close> on the active column flips the direction; on any other
  column it makes that column active with the ascending direction. When no two records
  shown have the same sort value under the column, a second call on the same column
  leaves the records in exactly the reverse of the order the first call left.
\<close>

theorem sort_toggle_reverses:
  "currentSort (sortTable col a) =
     (if column (currentSort a) = Some col
      then \<lparr>column = Some col,
            direction = (if direction (currentSort a) = Asc then Desc else Asc)\<rparr>
      else \<lparr>column = Some col, direction = Asc\<rparr>) \<and>
   (distinct (map (sortKeyOf a col) (filteredBeers a)) \<longrightarrow>
      filteredBeers (sortTable col (sortTable col a)) = rev (filteredBeers (sortTable col a)))"
proof (intro conjI impI)
  show "currentSort (sortTable col a) =
     (if column (currentSort a) = Some col
      then \<lparr>column = Some col,
            direction = (if direction (currentSort a) = Asc then Desc else Asc)\<rparr>
      else \<lparr>column = Some col, direction = Asc\<rparr>)"
    by (simp add: sortTable_def toggleSort_def Let_def)
next
  assume d: "distinct (map (sortKeyOf a col) (filteredBeers a))"
  let ?xs = "filteredBeers a"
  let ?d1 = "direction (toggleSort (currentSort a) col)"
  have one: "filteredBeers (sortTable col a) = sort_js (compareBeers a col ?d1) ?xs"
    and cs1: "currentSort (sortTable col a) = toggleSort (currentSort a) col"
    by (simp_all add: sortTable_def Let_def)
  have col1: "column (toggleSort (currentSort a) col) = Some col"
    by (simp add: toggleSort_def)
  have two: "filteredBeers (sortTable col (sortTable col a)) =
      sort_js (compareBeers a col (if ?d1 = Asc then Desc else Asc))
        (sort_js (compareBeers a col ?d1) ?xs)"
    using col1 by (simp add: sortTable_def [of col "sortTable col a"] Let_def one cs1 toggleSort_def [of "toggleSort (currentSort a) col"])
  show "filteredBeers (sortTable col (sortTable col a)) = rev (filteredBeers (sortTable col a))"
  proof (cases ?d1)
    case Asc
    with two one sort_twice(1) [OF d] show ?thesis by simp
  next
    case Desc
    with two one sort_twice(2) [OF d] show ?thesis by simp
  qed
qed


theorem sort_toggle_reverses_witness:
  "distinct (map (sortKeyOf
       ((initialApp None)
          \<lparr>filteredBeers :=
             [\<lparr>brewery = ''Brewer A'', beer = ''Golden'', style = ''Golden Ale'',
               abv = parseABV ''4.2%'', location = ''Tent 1'', bar = ''Bar X''\<rparr>,
              \<lparr>brewery = ''Brewer B'', beer = ''Mystery'', style = ''Mild'',
               abv = parseABV ''N/A'', location = ''Tent 1'', bar = ''Bar X''\<rparr>,
              \<lparr>brewery = ''Brewer C'', beer = ''Strong'', style = ''Old Ale'',
               abv = parseABV ''6.5%'', location = ''Tent 2'', bar = ''Bar Y''\<rparr>]\<rparr>) col_abv)
     (filteredBeers
       ((initialApp None)
          \<lparr>filteredBeers :=
             [\<lparr>brewery = ''Brewer A'', beer = ''Golden'', style = ''Golden Ale'',
               abv = parseABV ''4.2%'', location = ''Tent 1'', bar = ''Bar X''\<rparr>,
              \<lparr>brewery = ''Brewer B'', beer = ''Mystery'', style = ''Mild'',
               abv = parseABV ''N/A'', location = ''Tent 1'', bar = ''Bar X''\<rparr>,
              \<lparr>brewery = ''Brewer C'', beer = ''Strong'', style = ''Old Ale'',
               abv = parseABV ''6.5%'', location = ''Tent 2'', bar = ''Bar Y''\<rparr>]\<rparr>))) \<and>
   map beer (filteredBeers (sortTable col_abv
       ((initialApp None)
          \<lparr>filteredBeers :=
             [\<lparr>brewery = ''Brewer A'', beer = ''Golden'', style = ''Golden Ale'',
               abv = parseABV ''4.2%'', location = ''Tent 1'', bar = ''Bar X''\<rparr>,
              \<lparr>brewery = ''Brewer B'', beer = ''Mystery'', style = ''Mild'',
               abv = parseABV ''N/A'', location = ''Tent 1'', bar = ''Bar X''\<rparr>,
              \<lparr>brewery = ''Brewer C'', beer = ''Strong'', style = ''Old Ale'',
               abv = parseABV ''6.5%'', location = ''Tent 2'', bar = ''Bar Y''\<rparr>]\<rparr>))) =
     [''Mystery'', ''Golden'', ''Strong''] \<and>
   map beer (filteredBeers (sortTable col_abv (sortTable col_abv
       ((initialApp None)
          \<lparr>filteredBeers :=
             [\<lparr>brewery = ''Brewer A'', beer = ''Golden'', style = ''Golden Ale'',
               abv = parseABV ''4.2%'', location = ''Tent 1'', bar = ''Bar X''\<rparr>,
              \<lparr>brewery = ''Brewer B'', beer = ''Mystery'', style = ''Mild'',
               abv = parseABV ''N/A'', location = ''Tent 1'', bar = ''Bar X''\<rparr>,
              \<lparr>brewery = ''Brewer C'', beer = ''Strong'', style = ''Old Ale'',
               abv = parseABV ''6.5%'', location = ''Tent 2'', bar = ''Bar Y''\<rparr>]\<rparr>)))) =
     [''Strong'', ''Golden'', ''Mystery'']"
proof -
  define a where "a = (initialApp None)
          \<lparr>filteredBeers :=
             [\<lparr>brewery = ''Brewer A'', beer = ''Golden'', style = ''Golden Ale'',
               abv = parseABV ''4.2%'', location = ''Tent 1'', bar = ''Bar X''\<rparr>,
              \<lparr>brewery = ''Brewer B'', beer = ''Mystery'', style = ''Mild'',
               abv = parseABV ''N/A'', location = ''Tent 1'', bar = ''Bar X''\<rparr>,
              \<lparr>brewery = ''Brewer C'', beer = ''Strong'', style = ''Old Ale'',
               abv = parseABV ''6.5%'', location = ''Tent 2'', bar = ''Bar Y''\<rparr>]\<rparr>"
  have d: "distinct (map (sortKeyOf a col_abv) (filteredBeers a))"
    unfolding a_def by code_simp
  have one: "map beer (filteredBeers (sortTable col_abv a)) = [''Mystery'', ''Golden'', ''Strong'']"
    unfolding a_def by code_simp
  note two = sort_toggle_reverses [of col_abv a, THEN conjunct2, THEN mp, OF d]
  have "map beer (filteredBeers (sortTable col_abv (sortTable col_abv a))) =
      rev (map beer (filteredBeers (sortTable col_abv a)))"
    by (simp only: two rev_map)
  with one have "map beer (filteredBeers (sortTable col_abv (sortTable col_abv a))) =
      [''Strong'', ''Golden'', ''Mystery'']"
    by simp
  with d one show ?thesis
    unfolding a_def by (intro conjI)
qed

subsection \<open>The availability key\<close>

lemma key_split:
  assumes "CHR ''|'' \<notin> set b1" and "CHR ''|'' \<notin> set b2"
    and "b1 @ CHR ''|'' # n1 = b2 @ CHR ''|'' # n2"
  shows "b1 = b2 \<and> n1 = n2"
  using assms
proof (induction b1 arbitrary: b2)
  case Nil
  then show ?case by (cases b2) auto
next
  case (Cons c b1)
  then show ?case by (cases b2) auto
qed

text \<open>
  Claim C10. The key of a record is its brewery, the character \<open>|\<close> and its name. Two
  different pairs can have one key: \<open>a|b\<close> with \<open>c\<close>, and \<open>a\<close> with \<open>b|c\<close>; whatever the
  cache holds, both records then read the same entry. When no brewery contains \<open>|\<close>,
  equal keys come from equal pairs.
\<close>

theorem availability_key_collides:
  "availabilityKey b n = b @ ''|'' @ n \<and>
   availabilityKey ''a|b'' ''c'' = availabilityKey ''a'' ''b|c'' \<and>
   (''a|b'', ''c'') \<noteq> (''a'', ''b|c'') \<and>
   (brewery x = ''a|b'' \<and> beer x = ''c'' \<and> brewery y = ''a'' \<and> beer y = ''b|c'' \<longrightarrow>
      getBeerAvailability a x = getBeerAvailability a y \<and>
      getBeerAvailabilityInfo a x = getBeerAvailabilityInfo a y) \<and>
   (CHR ''|'' \<notin> set b1 \<and> CHR ''|'' \<notin> set b2 \<and>
      availabilityKey b1 n1 = availabilityKey b2 n2 \<longrightarrow> b1 = b2 \<and> n1 = n2)"
proof (intro conjI impI)
  show "availabilityKey b n = b @ ''|'' @ n" by (simp add: availabilityKey_def)
  show "availabilityKey ''a|b'' ''c'' = availabilityKey ''a'' ''b|c''"
    by (simp add: availabilityKey_def)
  show "(''a|b'', ''c'') \<noteq> (''a'', ''b|c'')" by simp
next
  assume h: "brewery x = ''a|b'' \<and> beer x = ''c'' \<and> brewery y = ''a'' \<and> beer y = ''b|c''"
  then show "getBeerAvailability a x = getBeerAvailability a y"
    by (simp add: getBeerAvailability_def availabilityKey_def)
  from h show "getBeerAvailabilityInfo a x = getBeerAvailabilityInfo a y"
    by (simp add: getBeerAvailabilityInfo_def availabilityKey_def)
next
  assume h: "CHR ''|'' \<notin> set b1 \<and> CHR ''|'' \<notin> set b2 \<and>
      availabilityKey b1 n1 = availabilityKey b2 n2"
  then have "b1 = b2 \<and> n1 = n2"
    using key_split [of b1 b2 n1 n2] by (simp add: availabilityKey_def)
  then show "b1 = b2" and "n1 = n2" by simp_all
qed

text \<open>
  An instance: the table marks the beer \<open>c\<close> of brewery \<open>a|b\<close> available and the beer
  \<open>b|c\<close> of brewery \<open>a\<close> unavailable; after a load both read the one entry the later row
  left in the cache.
\<close>

theorem availability_key_collides_witness:
  "storedStatus
     (loadBeerAvailability \<lparr>fetchError = False, writeError = False, loadError = False\<rparr>
        (initialApp (Some
          [\<lparr>is_available = True, updated_by = ''User_1'', updated_at = Some 1000,
            row_brewery = ''a|b'', beer_name = ''c''\<rparr>,
           \<lparr>is_available = False, updated_by = ''User_2'', updated_at = Some 2000,
            row_brewery = ''a'', beer_name = ''b|c''\<rparr>])))
     \<lparr>brewery = ''a|b'', beer = ''c'', style = ''Mild'', abv = Num 3, location = ''Tent 1'',
      bar = ''Bar X''\<rparr> \<and>
   \<not> getBeerAvailability
     (loadBeerAvailability \<lparr>fetchError = False, writeError = False, loadError = False\<rparr>
        (initialApp (Some
          [\<lparr>is_available = True, updated_by = ''User_1'', updated_at = Some 1000,
            row_brewery = ''a|b'', beer_name = ''c''\<rparr>,
           \<lparr>is_available = False, updated_by = ''User_2'', updated_at = Some 2000,
            row_brewery = ''a'', beer_name = ''b|c''\<rparr>])))
     \<lparr>brewery = ''a|b'', beer = ''c'', style = ''Mild'', abv = Num 3, location = ''Tent 1'',
      bar = ''Bar X''\<rparr> \<and>
   availabilityKey ''a'' ''b|c'' = availabilityKey ''a'' ''b|c'' \<and> CHR ''|'' \<notin> set ''a''"
proof -
  define a where "a =
    loadBeerAvailability \<lparr>fetchError = False, writeError = False, loadError = False\<rparr>
        (initialApp (Some
          [\<lparr>is_available = True, updated_by = ''User_1'', updated_at = Some 1000,
            row_brewery = ''a|b'', beer_name = ''c''\<rparr>,
           \<lparr>is_available = False, updated_by = ''User_2'', updated_at = Some 2000,
            row_brewery = ''a'', beer_name = ''b|c''\<rparr>]))"
  define x where "x = \<lparr>brewery = ''a|b'', beer = ''c'', style = ''Mild'', abv = Num 3,
      location = ''Tent 1'', bar = ''Bar X''\<rparr>"
  define y where "y = \<lparr>brewery = ''a'', beer = ''b|c'', style = ''Mild'', abv = Num 3,
      location = ''Tent 1'', bar = ''Bar X''\<rparr>"
  have h: "brewery x = ''a|b'' \<and> beer x = ''c'' \<and> brewery y = ''a'' \<and> beer y = ''b|c''"
    by (simp add: x_def y_def)
  note same = availability_key_collides [of "[]" "[]" x y a "''a''" "''a''" "''b|c''" "''b|c''",
      THEN conjunct2, THEN conjunct2, THEN conjunct2, THEN conjunct1, THEN mp, OF h,
      THEN conjunct1]
  have sx: "storedStatus a x"
    unfolding a_def x_def
    by (simp add: storedStatus_def storedRow_def loadBeerAvailability_def initialApp_def
        selectSingle_def matchesKey_def)
  have gy: "\<not> getBeerAvailability a y"
    unfolding a_def y_def
    by (simp add: getBeerAvailability_def loadBeerAvailability_def initialApp_def
        setAvailability_def availabilityKey_def)
  from same gy have gx: "\<not> getBeerAvailability a x" by simp
  have k: "CHR ''|'' \<notin> set ''a'' \<and> CHR ''|'' \<notin> set ''a'' \<and>
      availabilityKey ''a'' ''b|c'' = availabilityKey ''a'' ''b|c''"
    by simp
  from sx gx k show ?thesis
    unfolding a_def x_def by simp
qed

subsection \<open>The availability toggle\<close>

lemma filter_matchesKey_empty:
  "filter (matchesKey b n) data = [] \<longleftrightarrow> (b, n) \<notin> set (map (\<lambda>r. (row_brewery r, beer_name r)) data)"
  by (induction data) (auto simp add: matchesKey_def)

lemma keyed_at_most_one:
  "keyed data \<Longrightarrow> filter (matchesKey b n) data = [] \<or> (\<exists>r. filter (matchesKey b n) data = [r])"
proof (induction data)
  case Nil
  show ?case by simp
next
  case (Cons r data)
  then have k: "keyed data" and fresh: "(row_brewery r, beer_name r) \<notin> set (map (\<lambda>r. (row_brewery r, beer_name r)) data)"
    by (simp_all add: keyed_def)
  show ?case
  proof (cases "matchesKey b n r")
    case True
    then have "(b, n) \<notin> set (map (\<lambda>r. (row_brewery r, beer_name r)) data)"
      using fresh by (simp add: matchesKey_def)
    then have "filter (matchesKey b n) data = []"
      by (simp add: filter_matchesKey_empty)
    with True show ?thesis by simp
  next
    case False
    with Cons.IH [OF k] show ?thesis by simp
  qed
qed

lemma keys_updateRows:
  "map (\<lambda>r. (row_brewery r, beer_name r)) (updateRows data b n s u t) =
   map (\<lambda>r. (row_brewery r, beer_name r)) data"
  by (induction data) (simp_all add: updateRows_def)

lemma filter_updateRows:
  "filter (matchesKey b n) (updateRows data b n s u t) =
   map (\<lambda>r. r\<lparr>is_available := s, updated_by := u, updated_at := Some t\<rparr>)
     (filter (matchesKey b n) data)"
  by (induction data) (simp_all add: updateRows_def matchesKey_def)

lemma supabase_loadBeerAvailability [simp]:
  "supabase (loadBeerAvailability net a) = supabase a"
  by (simp add: loadBeerAvailability_def split: option.splits)

text \<open>
  One successful toggle on a keyed table: the table stays keyed, and the row of the record
  now carries the negated status, the user and the clock reading.
\<close>

lemma toggle_step:
  assumes s: "supabase a = Some data" and k: "keyed data" and ok: "succeeds net"
  shows "\<exists>data' r. supabase (toggleBeerAvailability net u t b a) = Some data' \<and> keyed data' \<and>
           selectSingle data' (brewery b) (beer b) = Some r \<and>
           is_available r = (\<not> storedStatus a b) \<and> updated_at r = Some t \<and> updated_by r = u"
proof -
  let ?B = "brewery b" and ?N = "beer b"
  from ok have net: "\<not> fetchError net" "\<not> writeError net" "\<not> loadError net"
    by (simp_all add: succeeds_def)
  from keyed_at_most_one [OF k, of ?B ?N] show ?thesis
  proof
    assume none: "filter (matchesKey ?B ?N) data = []"
    let ?new = "\<lparr>is_available = True, updated_by = u, updated_at = Some t,
                 row_brewery = ?B, beer_name = ?N\<rparr>"
    have sel: "selectSingle data ?B ?N = None"
      by (simp add: selectSingle_def none)
    then have st: "\<not> storedStatus a b"
      by (simp add: storedStatus_def storedRow_def s)
    have tog: "supabase (toggleBeerAvailability net u t b a) = Some (data @ [?new])"
      by (simp add: toggleBeerAvailability_def s net sel insertRow_def none Let_def)
    have "(?B, ?N) \<notin> set (map (\<lambda>r. (row_brewery r, beer_name r)) data)"
      using none by (simp add: filter_matchesKey_empty)
    then have k': "keyed (data @ [?new])"
      using k by (auto simp add: keyed_def)
    have sel': "selectSingle (data @ [?new]) ?B ?N = Some ?new"
      by (simp add: selectSingle_def none matchesKey_def)
    from tog k' sel' st show ?thesis by auto
  next
    assume "\<exists>r. filter (matchesKey ?B ?N) data = [r]"
    then obtain r where one: "filter (matchesKey ?B ?N) data = [r]" ..
    let ?s = "\<not> is_available r"
    let ?r' = "r\<lparr>is_available := ?s, updated_by := u, updated_at := Some t\<rparr>"
    have sel: "selectSingle data ?B ?N = Some r"
      by (simp add: selectSingle_def one)
    then have st: "storedStatus a b = is_available r"
      by (simp add: storedStatus_def storedRow_def s)
    have tog: "supabase (toggleBeerAvailability net u t b a) = Some (updateRows data ?B ?N ?s u t)"
      by (simp add: toggleBeerAvailability_def s net sel Let_def)
    have k': "keyed (updateRows data ?B ?N ?s u t)"
      using k by (simp add: keyed_def keys_updateRows)
    have sel': "selectSingle (updateRows data ?B ?N ?s u t) ?B ?N = Some ?r'"
      by (simp add: selectSingle_def filter_updateRows one)
    from tog k' sel' st show ?thesis by auto
  qed
qed

text \<open>
  Claim C9, with the clock written out. On a table keyed by brewery and beer name, two
  toggles of a record in a row, all requests succeeding, leave the stored availability of
  the record as it was before the first (the first toggle negates it, the second negates
  it back), whatever the clock reads. Each toggle stores the clock reading taken at that
  toggle as \<open>updated_at\<close>, whatever it is; so the stored time stamp strictly increases
  with each toggle when each reading is later than the time stamp stored before it.
\<close>

theorem toggle_twice_restores:
  assumes "supabase a = Some data" and "keyed data"
    and "succeeds net1" and "succeeds net2"
  shows "storedStatus (toggleBeerAvailability net1 u1 t1 b a) b = (\<not> storedStatus a b) \<and>
         storedStatus (toggleBeerAvailability net2 u2 t2 b (toggleBeerAvailability net1 u1 t1 b a)) b =
           storedStatus a b \<and>
         storedUpdatedAt (toggleBeerAvailability net1 u1 t1 b a) b = Some t1 \<and>
         storedUpdatedAt (toggleBeerAvailability net2 u2 t2 b (toggleBeerAvailability net1 u1 t1 b a)) b =
           Some t2 \<and>
         (t1 < t2 \<longrightarrow>
            (\<exists>s1 s2. storedUpdatedAt (toggleBeerAvailability net1 u1 t1 b a) b = Some s1 \<and>
               storedUpdatedAt
                 (toggleBeerAvailability net2 u2 t2 b (toggleBeerAvailability net1 u1 t1 b a)) b =
                 Some s2 \<and> s1 < s2)) \<and>
         (\<forall>t0. storedUpdatedAt a b = Some t0 \<and> t0 < t1 \<and> t1 < t2 \<longrightarrow>
            (\<exists>s1 s2. storedUpdatedAt (toggleBeerAvailability net1 u1 t1 b a) b = Some s1 \<and>
               storedUpdatedAt
                 (toggleBeerAvailability net2 u2 t2 b (toggleBeerAvailability net1 u1 t1 b a)) b =
                 Some s2 \<and> t0 < s1 \<and> s1 < s2))"
proof -
  let ?a1 = "toggleBeerAvailability net1 u1 t1 b a"
  let ?a2 = "toggleBeerAvailability net2 u2 t2 b ?a1"
  from toggle_step [OF assms(1,2,3), of u1 t1 b]
  obtain data1 r1 where s1: "supabase ?a1 = Some data1" and k1: "keyed data1"
    and r1: "selectSingle data1 (brewery b) (beer b) = Some r1"
      "is_available r1 = (\<not> storedStatus a b)" "updated_at r1 = Some t1"
    by blast
  from toggle_step [OF s1 k1 assms(4), of u2 t2 b]
  obtain data2 r2 where s2: "supabase ?a2 = Some data2"
    and r2: "selectSingle data2 (brewery b) (beer b) = Some r2"
      "is_available r2 = (\<not> storedStatus ?a1 b)" "updated_at r2 = Some t2"
    by blast
  have st1: "storedStatus ?a1 b = (\<not> storedStatus a b)"
    by (simp add: storedStatus_def [of ?a1] storedRow_def s1 r1)
  have st2: "storedStatus ?a2 b = storedStatus a b"
    by (simp add: storedStatus_def [of ?a2] storedRow_def s2 r2 st1)
  have u1: "storedUpdatedAt ?a1 b = Some t1"
    by (simp add: storedUpdatedAt_def storedRow_def s1 r1)
  have u2: "storedUpdatedAt ?a2 b = Some t2"
    by (simp add: storedUpdatedAt_def storedRow_def s2 r2)
  from st1 st2 u1 u2 show ?thesis by simp
qed


theorem toggle_twice_restores_witness:
  "storedStatus
     (toggleBeerAvailability \<lparr>fetchError = False, writeError = False, loadError = False\<rparr>
        ''User_b'' 2000
        \<lparr>brewery = ''Brewer A'', beer = ''Golden'', style = ''Golden Ale'', abv = Num 4,
         location = ''Tent 1'', bar = ''Bar X''\<rparr>
        (toggleBeerAvailability \<lparr>fetchError = False, writeError = False, loadError = False\<rparr>
           ''User_a'' 1000
           \<lparr>brewery = ''Brewer A'', beer = ''Golden'', style = ''Golden Ale'', abv = Num 4,
            location = ''Tent 1'', bar = ''Bar X''\<rparr>
           (initialApp (Some
              [\<lparr>is_available = True, updated_by = ''User_z'', updated_at = Some 500,
                row_brewery = ''Brewer A'', beer_name = ''Golden''\<rparr>]))))
     \<lparr>brewery = ''Brewer A'', beer = ''Golden'', style = ''Golden Ale'', abv = Num 4,
      location = ''Tent 1'', bar = ''Bar X''\<rparr> \<and>
   \<not> storedStatus
     (toggleBeerAvailability \<lparr>fetchError = False, writeError = False, loadError = False\<rparr>
        ''User_a'' 1000
        \<lparr>brewery = ''Brewer A'', beer = ''Golden'', style = ''Golden Ale'', abv = Num 4,
         location = ''Tent 1'', bar = ''Bar X''\<rparr>
        (initialApp (Some
           [\<lparr>is_available = True, updated_by = ''User_z'', updated_at = Some 500,
             row_brewery = ''Brewer A'', beer_name = ''Golden''\<rparr>])))
     \<lparr>brewery = ''Brewer A'', beer = ''Golden'', style = ''Golden Ale'', abv = Num 4,
      location = ''Tent 1'', bar = ''Bar X''\<rparr> \<and>
   storedUpdatedAt
     (toggleBeerAvailability \<lparr>fetchError = False, writeError = False, loadError = False\<rparr>
        ''User_b'' 2000
        \<lparr>brewery = ''Brewer A'', beer = ''Golden'', style = ''Golden Ale'', abv = Num 4,
         location = ''Tent 1'', bar = ''Bar X''\<rparr>
        (toggleBeerAvailability \<lparr>fetchError = False, writeError = False, loadError = False\<rparr>
           ''User_a'' 1000
           \<lparr>brewery = ''Brewer A'', beer = ''Golden'', style = ''Golden Ale'', abv = Num 4,
            location = ''Tent 1'', bar = ''Bar X''\<rparr>
           (initialApp (Some
              [\<lparr>is_available = True, updated_by = ''User_z'', updated_at = Some 500,
                row_brewery = ''Brewer A'', beer_name = ''Golden''\<rparr>]))))
     \<lparr>brewery = ''Brewer A'', beer = ''Golden'', style = ''Golden Ale'', abv = Num 4,
      location = ''Tent 1'', bar = ''Bar X''\<rparr> = Some 2000 \<and>
   storedUpdatedAt
     (toggleBeerAvailability \<lparr>fetchError = False, writeError = False, loadError = False\<rparr>
        ''User_a'' 1000
        \<lparr>brewery = ''Brewer A'', beer = ''Golden'', style = ''Golden Ale'', abv = Num 4,
         location = ''Tent 1'', bar = ''Bar X''\<rparr>
        (initialApp (Some
           [\<lparr>is_available = True, updated_by = ''User_z'', updated_at = Some 500,
             row_brewery = ''Brewer A'', beer_name = ''Golden''\<rparr>])))
     \<lparr>brewery = ''Brewer A'', beer = ''Golden'', style = ''Golden Ale'', abv = Num 4,
      location = ''Tent 1'', bar = ''Bar X''\<rparr> = Some 1000 \<and>
   storedUpdatedAt
     (initialApp (Some
        [\<lparr>is_available = True, updated_by = ''User_z'', updated_at = Some 500,
          row_brewery = ''Brewer A'', beer_name = ''Golden''\<rparr>]))
     \<lparr>brewery = ''Brewer A'', beer = ''Golden'', style = ''Golden Ale'', abv = Num 4,
      location = ''Tent 1'', bar = ''Bar X''\<rparr> = Some 500 \<and>
   (500::int) < 1000 \<and> (1000::int) < 2000"
proof -
  define net where "net = \<lparr>fetchError = False, writeError = False, loadError = False\<rparr>"
  define b where "b = \<lparr>brewery = ''Brewer A'', beer = ''Golden'', style = ''Golden Ale'',
      abv = Num 4, location = ''Tent 1'', bar = ''Bar X''\<rparr>"
  define data where "data = [\<lparr>is_available = True, updated_by = ''User_z'',
      updated_at = Some 500, row_brewery = ''Brewer A'', beer_name = ''Golden''\<rparr>]"
  define a where "a = initialApp (Some data)"
  have s: "supabase a = Some data"
    by (simp add: a_def initialApp_def)
  have k: "keyed data"
    by (simp add: data_def keyed_def)
  have ok: "succeeds net"
    by (simp add: net_def succeeds_def)
  have lt: "(1000::int) < 2000"
    by simp
  have st0: "storedStatus a b"
    by (simp add: storedStatus_def storedRow_def s selectSingle_def matchesKey_def data_def b_def)
  note t = toggle_twice_restores [OF s k ok ok, of "''User_a''" 1000 b "''User_b''" 2000]
  have u0: "storedUpdatedAt a b = Some 500"
    by (simp add: storedUpdatedAt_def storedRow_def s selectSingle_def matchesKey_def data_def
        b_def)
  have h: "storedUpdatedAt a b = Some 500 \<and> (500::int) < 1000 \<and> (1000::int) < 2000"
    using u0 by simp
  from t h have "\<exists>s1 s2.
      storedUpdatedAt (toggleBeerAvailability net ''User_a'' 1000 b a) b = Some s1 \<and>
      storedUpdatedAt (toggleBeerAvailability net ''User_b'' 2000 b
        (toggleBeerAvailability net ''User_a'' 1000 b a)) b = Some s2 \<and> 500 < s1 \<and> s1 < s2"
    by blast
  with t st0 u0 have
    "storedStatus (toggleBeerAvailability net ''User_b'' 2000 b
        (toggleBeerAvailability net ''User_a'' 1000 b a)) b"
    and "\<not> storedStatus (toggleBeerAvailability net ''User_a'' 1000 b a) b"
    and "storedUpdatedAt (toggleBeerAvailability net ''User_b'' 2000 b
        (toggleBeerAvailability net ''User_a'' 1000 b a)) b = Some 2000"
    and "storedUpdatedAt (toggleBeerAvailability net ''User_a'' 1000 b a) b = Some 1000"
    and "storedUpdatedAt a b = Some 500"
    by simp_all
  then show ?thesis
    unfolding a_def data_def b_def net_def by simp
qed

text \<open>
  The stored time stamp is the clock reading and nothing else: when the row was written
  from a device whose clock is ahead (5000) and the toggles read 1000 and 1000 again, the
  first toggle lowers the time stamp and the second leaves it equal.
\<close>

theorem toggle_clock_not_later:
  "storedUpdatedAt
     (initialApp (Some
        [\<lparr>is_available = True, updated_by = ''User_z'', updated_at = Some 5000,
          row_brewery = ''Brewer A'', beer_name = ''Golden''\<rparr>]))
     \<lparr>brewery = ''Brewer A'', beer = ''Golden'', style = ''Golden Ale'', abv = Num 4,
      location = ''Tent 1'', bar = ''Bar X''\<rparr> = Some 5000 \<and>
   storedUpdatedAt
     (toggleBeerAvailability \<lparr>fetchError = False, writeError = False, loadError = False\<rparr>
        ''User_a'' 1000
        \<lparr>brewery = ''Brewer A'', beer = ''Golden'', style = ''Golden Ale'', abv = Num 4,
         location = ''Tent 1'', bar = ''Bar X''\<rparr>
        (initialApp (Some
           [\<lparr>is_available = True, updated_by = ''User_z'', updated_at = Some 5000,
             row_brewery = ''Brewer A'', beer_name = ''Golden''\<rparr>])))
     \<lparr>brewery = ''Brewer A'', beer = ''Golden'', style = ''Golden Ale'', abv = Num 4,
      location = ''Tent 1'', bar = ''Bar X''\<rparr> = Some 1000 \<and>
   storedUpdatedAt
     (toggleBeerAvailability \<lparr>fetchError = False, writeError = False, loadError = False\<rparr>
        ''User_a'' 1000
        \<lparr>brewery = ''Brewer A'', beer = ''Golden'', style = ''Golden Ale'', abv = Num 4,
         location = ''Tent 1'', bar = ''Bar X''\<rparr>
        (toggleBeerAvailability \<lparr>fetchError = False, writeError = False, loadError = False\<rparr>
           ''User_a'' 1000
           \<lparr>brewery = ''Brewer A'', beer = ''Golden'', style = ''Golden Ale'', abv = Num 4,
            location = ''Tent 1'', bar = ''Bar X''\<rparr>
           (initialApp (Some
              [\<lparr>is_available = True, updated_by = ''User_z'', updated_at = Some 5000,
                row_brewery = ''Brewer A'', beer_name = ''Golden''\<rparr>]))))
     \<lparr>brewery = ''Brewer A'', beer = ''Golden'', style = ''Golden Ale'', abv = Num 4,
      location = ''Tent 1'', bar = ''Bar X''\<rparr> = Some 1000 \<and>
   \<not> ((5000::int) < 1000) \<and> \<not> ((1000::int) < 1000)"
  by (simp add: storedUpdatedAt_def storedRow_def toggleBeerAvailability_def
      loadBeerAvailability_def initialApp_def selectSingle_def matchesKey_def updateRows_def
      Let_def)

text \<open>
  The earlier revision does not restore the status: a record the cache knows is written
  as unavailable by every toggle, so two toggles of an available record leave it
  unavailable.
\<close>

lemma upsert_toggle_stays_unavailable:
  "getBeerAvailability
     (loadBeerAvailability \<lparr>fetchError = False, writeError = False, loadError = False\<rparr>
        (initialApp (Some
           [\<lparr>is_available = True, updated_by = ''User_z'', updated_at = Some 500,
             row_brewery = ''Brewer A'', beer_name = ''Golden''\<rparr>])))
     \<lparr>brewery = ''Brewer A'', beer = ''Golden'', style = ''Golden Ale'', abv = Num 4,
      location = ''Tent 1'', bar = ''Bar X''\<rparr> \<and>
   \<not> storedStatus
     (toggleBeerAvailability_upsert
        \<lparr>fetchError = False, writeError = False, loadError = False\<rparr> ''User_a'' 2000
        \<lparr>brewery = ''Brewer A'', beer = ''Golden'', style = ''Golden Ale'', abv = Num 4,
         location = ''Tent 1'', bar = ''Bar X''\<rparr>
        (toggleBeerAvailability_upsert
           \<lparr>fetchError = False, writeError = False, loadError = False\<rparr> ''User_a'' 1000
           \<lparr>brewery = ''Brewer A'', beer = ''Golden'', style = ''Golden Ale'', abv = Num 4,
            location = ''Tent 1'', bar = ''Bar X''\<rparr>
           (loadBeerAvailability \<lparr>fetchError = False, writeError = False, loadError = False\<rparr>
              (initialApp (Some
                 [\<lparr>is_available = True, updated_by = ''User_z'', updated_at = Some 500,
                   row_brewery = ''Brewer A'', beer_name = ''Golden''\<rparr>])))))
     \<lparr>brewery = ''Brewer A'', beer = ''Golden'', style = ''Golden Ale'', abv = Num 4,
      location = ''Tent 1'', bar = ''Bar X''\<rparr>"
  by (simp add: getBeerAvailability_def storedStatus_def storedRow_def
      toggleBeerAvailability_upsert_def loadBeerAvailability_def initialApp_def
      setAvailability_def availabilityKey_def upsertRow_def insertRow_def updateRows_def
      selectSingle_def matchesKey_def Let_def)

end
